theory Spec2Isabelle
  imports Main "HOL-Library.Finite_Map" "HOL-Library.Word" "HOL-Library.Sublist"
begin

section \<open>Data model\<close>

text \<open>
  The package exists in two variants of the same file: \<^verbatim>\<open>provider.go\<close>, which filters
  routers by entry point, and a second file that rewrites middleware references instead.
  Definitions taken from the second file carry the suffix \<open>_B\<close>; \<^verbatim>\<open>mergeConfig\<close>,
  \<^verbatim>\<open>MarshalJSON\<close> and \<^verbatim>\<open>Stop\<close> are the same text in both files and are embedded once.

  A Go map is a finite map (\<open>fmap\<close>). Go leaves the order in which \<^verbatim>\<open>range\<close> visits a map
  unspecified, so every \<^verbatim>\<open>range\<close> over a map takes the order of the visit as an explicit
  list of keys, and the theorems hold for every list that enumerates the keys of the map
  (\<open>visits\<close>). A nil map behaves like the empty map in every operation used here (\<^verbatim>\<open>range\<close>,
  \<^verbatim>\<open>delete\<close>, lookup), so both are \<open>fmempty\<close>.

  A nil pointer dereference and a call of a nil function value are run-time panics; they are
  the value \<open>Inl NilDereference\<close>.
\<close>

datatype panic = NilDereference

text \<open>
  \<^verbatim>\<open>dynamic.Router\<close>: of its fields the package reads and writes \<^verbatim>\<open>EntryPoints\<close>,
  \<^verbatim>\<open>Middlewares\<close> and \<^verbatim>\<open>Service\<close>; \<open>Rule\<close> stands for the others, which it copies untouched.
\<close>

record Router =
  EntryPoints :: "string list"
  Middlewares :: "string list"
  Service :: string
  Rule :: string

text \<open>
  \<^verbatim>\<open>dynamic.HTTPConfiguration\<close>: the three maps. The routers are held by pointer
  (\<^verbatim>\<open>map[string]*dynamic.Router\<close>) and the package dereferences them, so an entry is
  \<open>None\<close> for a nil pointer. The decoder allocates one router per entry, so no two entries
  alias and a write through the pointer is an update of that entry. Services and middlewares
  are never dereferenced: their types are parameters.
\<close>

record ('s, 'm) HTTPConfiguration =
  Routers :: "(string, Router option) fmap"
  Services :: "(string, 's) fmap"
  Middlewares :: "(string, 'm) fmap"

text \<open>\<^verbatim>\<open>dynamic.Configuration\<close>: the field \<^verbatim>\<open>HTTP\<close> is a pointer, nil when the document has no
  \<^verbatim>\<open>http\<close> section.\<close>

record ('s, 'm) Configuration =
  HTTP :: "('s, 'm) HTTPConfiguration option"

record endpoint =
  endpoint :: string
  headers :: "(string, string) fmap"

text \<open>\<^verbatim>\<open>Config\<close> of the second file, and \<^verbatim>\<open>Config\<close> of \<^verbatim>\<open>provider.go\<close>, which adds the entry points.\<close>

record Config_B =
  PollInterval :: string
  PollTimeout :: string
  Endpoints :: "(string, endpoint) fmap"

record Config = Config_B +
  ConfigEntryPoints :: "string list"

text \<open>
  \<^verbatim>\<open>Provider\<close>. A \<^verbatim>\<open>time.Duration\<close> is a signed 64-bit integer. The field \<^verbatim>\<open>cancel\<close> is a
  function value, nil until \<^verbatim>\<open>Provide\<close> stores one: \<open>Some c\<close> is the cancel function of the
  context numbered \<open>c\<close>.
\<close>

record Provider_B =
  name :: string
  pollInterval :: "64 word"
  pollTimeout :: "64 word"
  endpoints :: "(string, endpoint) fmap"
  cancel :: "nat option"

record Provider = Provider_B +
  entrypoints :: "(string, bool) fmap"

section \<open>Ranging over maps\<close>

definition visits :: "'k list \<Rightarrow> ('k, 'v) fmap \<Rightarrow> bool" where
  "visits ks m \<longleftrightarrow> distinct ks \<and> set ks = fmdom' m"

text \<open>\<^verbatim>\<open>for k, v := range m { s = f k v s }\<close>, visiting the keys in the order \<open>ks\<close>.\<close>

fun rangeMap :: "'k list \<Rightarrow> ('k, 'v) fmap \<Rightarrow> ('k \<Rightarrow> 'v \<Rightarrow> 's \<Rightarrow> 's) \<Rightarrow> 's \<Rightarrow> 's" where
  "rangeMap [] m f s = s"
| "rangeMap (k # ks) m f s =
     (case fmlookup m k of
        None \<Rightarrow> rangeMap ks m f s
      | Some v \<Rightarrow> rangeMap ks m f (f k v s))"

text \<open>The same loop with a body that may panic: the panic ends the loop.\<close>

fun rangeMapP :: "'k list \<Rightarrow> ('k, 'v) fmap \<Rightarrow> ('k \<Rightarrow> 'v \<Rightarrow> 's \<Rightarrow> panic + 's) \<Rightarrow> 's \<Rightarrow> panic + 's" where
  "rangeMapP [] m f s = Inr s"
| "rangeMapP (k # ks) m f s =
     (case fmlookup m k of
        None \<Rightarrow> rangeMapP ks m f s
      | Some v \<Rightarrow> (case f k v s of Inl e \<Rightarrow> Inl e | Inr s' \<Rightarrow> rangeMapP ks m f s'))"

text \<open>No router of the configuration is a nil pointer.\<close>

definition noNilRouter :: "('s, 'm) HTTPConfiguration \<Rightarrow> bool" where
  "noNilRouter h \<longleftrightarrow> (\<forall>k. fmlookup (Routers h) k \<noteq> Some None)"

definition len :: "('k, 'v) fmap \<Rightarrow> nat" where
  "len m = fcard (fmdom m)"

section \<open>New, Init, Provide, Stop\<close>

text \<open>
  \<^verbatim>\<open>New\<close>. \<^verbatim>\<open>time.ParseDuration\<close> belongs to the standard library and is the parameter
  \<open>parse\<close> (\<open>Inl\<close> its error). The loop over \<^verbatim>\<open>config.Endpoints\<close> visits the keys in the order
  \<open>ks\<close>. The returned provider has no \<^verbatim>\<open>cancel\<close>.
\<close>

definition copyEndpoints :: "string list \<Rightarrow> (string, endpoint) fmap \<Rightarrow> (string, endpoint) fmap" where
  "copyEndpoints ks es =
     rangeMap ks es (\<lambda>k v m. fmupd k \<lparr>endpoint = endpoint v, headers = headers v\<rparr> m) fmempty"

definition New_B :: "(string \<Rightarrow> string + 64 word) \<Rightarrow> string list \<Rightarrow> 'a Config_B_scheme \<Rightarrow> string
    \<Rightarrow> string + Provider_B" where
  "New_B parse ks config nm =
     (case parse (PollInterval config) of
        Inl err \<Rightarrow> Inl err
      | Inr pi \<Rightarrow>
          (case parse (PollTimeout config) of
             Inl err \<Rightarrow> Inl err
           | Inr pt \<Rightarrow>
               Inr \<lparr>name = nm, pollInterval = pi, pollTimeout = pt,
                    endpoints = copyEndpoints ks (Endpoints config), cancel = None\<rparr>))"

definition New :: "(string \<Rightarrow> string + 64 word) \<Rightarrow> string list \<Rightarrow> Config \<Rightarrow> string
    \<Rightarrow> string + Provider" where
  "New parse ks config nm =
     (case parse (PollInterval config) of
        Inl err \<Rightarrow> Inl err
      | Inr pi \<Rightarrow>
          (case parse (PollTimeout config) of
             Inl err \<Rightarrow> Inl err
           | Inr pt \<Rightarrow>
               Inr \<lparr>name = nm, pollInterval = pi, pollTimeout = pt,
                    endpoints = copyEndpoints ks (Endpoints config), cancel = None,
                    entrypoints = fold (\<lambda>e m. fmupd e True m) (ConfigEntryPoints config) fmempty\<rparr>))"

text \<open>\<^verbatim>\<open>Init\<close>: \<open>None\<close> is the nil error, \<open>Some msg\<close> the error made by \<^verbatim>\<open>fmt.Errorf\<close>.\<close>

definition Init_B :: "'a Provider_B_scheme \<Rightarrow> string option" where
  "Init_B p =
     (if sint (pollInterval p) \<le> 0 then Some ''poll interval must be greater than 0''
      else if sint (pollTimeout p) \<le> 0 then Some ''poll timeout must be greater than 0''
      else if len (endpoints p) \<le> 0 then Some ''must provide at least 1 endpoint''
      else None)"

definition Init :: "Provider \<Rightarrow> string option" where
  "Init p =
     (if sint (pollInterval p) \<le> 0 then Some ''poll interval must be greater than 0''
      else if sint (pollTimeout p) \<le> 0 then Some ''poll timeout must be greater than 0''
      else if len (endpoints p) \<le> 0 then Some ''must provide at least 1 endpoint''
      else if len (entrypoints p) \<le> 0 then Some ''must specify at least one entrypoint''
      else None)"

text \<open>
  The provider together with the contexts made so far: \<open>contexts\<close> counts them and
  \<open>cancelled\<close> holds those whose cancel function has been called. \<^verbatim>\<open>Provide\<close> makes a
  context and stores its cancel function in the provider (the goroutine it starts on the
  context runs the ticks below and is not part of this state); \<^verbatim>\<open>Stop\<close> calls the stored
  function. Calling a context's cancel function again does
  nothing; calling a nil function value panics.
\<close>

record 'p lifecycle =
  provider :: 'p
  contexts :: nat
  cancelled :: "nat set"

definition Provide :: "('a Provider_B_scheme) lifecycle \<Rightarrow> ('a Provider_B_scheme) lifecycle \<times> string option" where
  "Provide s =
     (let c = contexts s
      in (s\<lparr>provider := (provider s)\<lparr>cancel := Some c\<rparr>, contexts := Suc c\<rparr>, None))"

definition Stop :: "('a Provider_B_scheme) lifecycle
    \<Rightarrow> panic + (('a Provider_B_scheme) lifecycle \<times> string option)" where
  "Stop s =
     (case cancel (provider s) of
        None \<Rightarrow> Inl NilDereference
      | Some c \<Rightarrow> Inr (s\<lparr>cancelled := insert c (cancelled s)\<rparr>, None))"

section \<open>ConfigMarshaler\<close>

text \<open>\<^verbatim>\<open>json.Marshal\<close> is the parameter \<open>marshal\<close>; \<open>Inl\<close> is the error of the pair it returns.\<close>

record 'c ConfigMarshaler =
  config :: "'c option"


section \<open>Policy B: rewriting middleware references\<close>

text \<open>
  \<^verbatim>\<open>strings.Replace(s, old, new, 1)\<close> of the standard library: the first occurrence of \<open>old\<close>
  in \<open>s\<close> is replaced by \<open>new\<close>; \<open>s\<close> is returned as it is when \<open>old\<close> does not occur.
\<close>

fun strings_Replace1 :: "string \<Rightarrow> string \<Rightarrow> string \<Rightarrow> string" where
  "strings_Replace1 [] old new = (if old = [] then new else [])"
| "strings_Replace1 (c # cs) old new =
     (if prefix old (c # cs) then new @ drop (length old) (c # cs)
      else c # strings_Replace1 cs old new)"

text \<open>The number of positions of \<open>s\<close> at which \<open>old\<close> occurs.\<close>

fun occurrences :: "string \<Rightarrow> string \<Rightarrow> nat" where
  "occurrences old [] = (if old = [] then 1 else 0)"
| "occurrences old (c # cs) = (if prefix old (c # cs) then 1 else 0) + occurrences old cs"

text \<open>
  The body of the loop over \<^verbatim>\<open>config.HTTP.Routers\<close> of the second file (lines 138 to 144): the router's list
  of middleware references is rebuilt, each reference passed through \<^verbatim>\<open>strings.Replace\<close>
  (\<open>rewriteRefs\<close>), and stored back through the pointer \<open>v\<close>.
\<close>

definition rewriteRefs :: "Router \<Rightarrow> Router" where
  "rewriteRefs r =
     r\<lparr>Router.Middlewares :=
         map (\<lambda>m. strings_Replace1 m ''@http'' ''@plugin-multi-http-provider'')
           (Router.Middlewares r)\<rparr>"

definition rewriteRouter :: "string \<Rightarrow> Router option \<Rightarrow> ('s, 'm) HTTPConfiguration
    \<Rightarrow> panic + ('s, 'm) HTTPConfiguration" where
  "rewriteRouter k v h =
     (case v of
        None \<Rightarrow> Inl NilDereference
      | Some r \<Rightarrow> Inr (h\<lparr>Routers := fmupd k (Some (rewriteRefs r)) (Routers h)\<rparr>))"

text \<open>The loop itself, on a decoded configuration; \<open>ks\<close> is the order of the visit.\<close>

definition rewriteMiddlewares :: "string list \<Rightarrow> ('s, 'm) Configuration \<Rightarrow> panic + ('s, 'm) Configuration" where
  "rewriteMiddlewares ks conf =
     (case HTTP conf of
        None \<Rightarrow> Inl NilDereference
      | Some h \<Rightarrow>
          (case rangeMapP ks (Routers h) rewriteRouter h of
             Inl e \<Rightarrow> Inl e
           | Inr h' \<Rightarrow> Inr (conf\<lparr>HTTP := Some h'\<rparr>)))"

section \<open>Policy A: filtering by entry point\<close>

text \<open>
  The three loops of \<^verbatim>\<open>provider.go\<close> (lines 149 to 180) between the decoding of a fragment and
  its storage in \<^verbatim>\<open>configs\<close>. The state of the first loop is the configuration with the two
  maps \<^verbatim>\<open>toDelete\<close> and \<^verbatim>\<open>toDeleteMiddlewares\<close>. The loop variable \<open>v\<close> is the pointer held by
  the map: the loop reads the router through it and writes the entry points back through it.
\<close>

record filterOrder =
  routerOrder :: "string list"
  deleteOrder :: "string list"
  middlewareOrder :: "string list"

text \<open>The entry points of the router that are keys of \<^verbatim>\<open>p.entrypoints\<close>, in their order.\<close>

definition recognized :: "(string, bool) fmap \<Rightarrow> Router \<Rightarrow> string list" where
  "recognized eps r = filter (\<lambda>e. fmlookup eps e \<noteq> None) (EntryPoints r)"

text \<open>
  The two loops over \<^verbatim>\<open>v.Middlewares\<close>: the first enters every reference not yet in
  \<^verbatim>\<open>toDeleteMiddlewares\<close> with \<^verbatim>\<open>true\<close>, the second sets every reference to \<^verbatim>\<open>false\<close>.
\<close>

definition markSeen :: "string list \<Rightarrow> (string, bool) fmap \<Rightarrow> (string, bool) fmap" where
  "markSeen ms t = fold (\<lambda>m t. if fmlookup t m = None then fmupd m True t else t) ms t"

definition markKept :: "string list \<Rightarrow> (string, bool) fmap \<Rightarrow> (string, bool) fmap" where
  "markKept ms t = fold (\<lambda>m t. fmupd m False t) ms t"

definition markRouter :: "(string, bool) fmap \<Rightarrow> string \<Rightarrow> Router option
    \<Rightarrow> ('s, 'm) HTTPConfiguration \<times> (string, string) fmap \<times> (string, bool) fmap
    \<Rightarrow> panic + ('s, 'm) HTTPConfiguration \<times> (string, string) fmap \<times> (string, bool) fmap" where
  "markRouter eps k v st =
     (case st of (h, toDelete, toDeleteMiddlewares) \<Rightarrow>
        (case v of
           None \<Rightarrow> Inl NilDereference
         | Some r \<Rightarrow>
             (let entrypoints = recognized eps r;
                  marked = markSeen (Router.Middlewares r) toDeleteMiddlewares;
                  h' = h\<lparr>Routers := fmupd k (Some (r\<lparr>EntryPoints := entrypoints\<rparr>)) (Routers h)\<rparr>
              in if length entrypoints = 0
                 then Inr (h', fmupd k (Service r) toDelete, marked)
                 else Inr (h', toDelete, markKept (Router.Middlewares r) marked))))"

definition deleteMarked :: "string list \<Rightarrow> (string, string) fmap \<Rightarrow> ('s, 'm) HTTPConfiguration
    \<Rightarrow> ('s, 'm) HTTPConfiguration" where
  "deleteMarked ds toDelete h =
     rangeMap ds toDelete
       (\<lambda>k v h. h\<lparr>Routers := fmdrop k (Routers h), Services := fmdrop v (Services h)\<rparr>) h"

definition deleteMiddlewares :: "string list \<Rightarrow> (string, bool) fmap \<Rightarrow> ('s, 'm) HTTPConfiguration
    \<Rightarrow> ('s, 'm) HTTPConfiguration" where
  "deleteMiddlewares ms toDeleteMiddlewares h =
     rangeMap ms toDeleteMiddlewares
       (\<lambda>k v h. if v then h\<lparr>Middlewares := fmdrop k (Middlewares h)\<rparr> else h) h"

definition filterEntryPoints :: "(string, bool) fmap \<Rightarrow> filterOrder \<Rightarrow> ('s, 'm) Configuration
    \<Rightarrow> panic + ('s, 'm) Configuration" where
  "filterEntryPoints eps ord conf =
     (case HTTP conf of
        None \<Rightarrow> Inl NilDereference
      | Some h \<Rightarrow>
          (case rangeMapP (routerOrder ord) (Routers h) (markRouter eps) (h, fmempty, fmempty) of
             Inl e \<Rightarrow> Inl e
           | Inr (h1, toDelete, toDeleteMiddlewares) \<Rightarrow>
               Inr (conf\<lparr>HTTP := Some
                 (deleteMiddlewares (middlewareOrder ord) toDeleteMiddlewares
                   (deleteMarked (deleteOrder ord) toDelete h1))\<rparr>)))"

text \<open>
  The orders of the three visits fit a fragment when each enumerates the keys of the map it
  ranges over: the routers of the fragment, and the two maps the first loop has built.
\<close>

definition fitsFilter :: "(string, bool) fmap \<Rightarrow> filterOrder \<Rightarrow> ('s, 'm) HTTPConfiguration \<Rightarrow> bool" where
  "fitsFilter eps ord h \<longleftrightarrow>
     visits (routerOrder ord) (Routers h) \<and>
     (case rangeMapP (routerOrder ord) (Routers h) (markRouter eps) (h, fmempty, fmempty) of
        Inl e \<Rightarrow> True
      | Inr (h1, toDelete, toDeleteMiddlewares) \<Rightarrow>
          visits (deleteOrder ord) toDelete \<and> visits (middlewareOrder ord) toDeleteMiddlewares)"

section \<open>mergeConfig\<close>

text \<open>
  \<open>nodes\<close> is the order in which the loop over \<^verbatim>\<open>configs\<close> visits the nodes, and \<open>keys node\<close>
  the orders in which the three inner loops visit the maps of that node's configuration.
  The entries of \<^verbatim>\<open>configs\<close> are pointers to decoded configurations, never nil.
\<close>

record keyOrder =
  middlewareKeys :: "string list"
  serviceKeys :: "string list"
  routerKeys :: "string list"

definition addNew :: "'k list \<Rightarrow> ('k, 'v) fmap \<Rightarrow> ('k, 'v) fmap \<Rightarrow> ('k, 'v) fmap" where
  "addNew ks src dst =
     rangeMap ks src (\<lambda>name m new. if fmlookup new name = None then fmupd name m new else new) dst"

definition mergeOne :: "keyOrder \<Rightarrow> ('s, 'm) Configuration \<Rightarrow> ('s, 'm) HTTPConfiguration
    \<Rightarrow> panic + ('s, 'm) HTTPConfiguration" where
  "mergeOne ord c new =
     (case HTTP c of
        None \<Rightarrow> Inl NilDereference
      | Some h \<Rightarrow>
          Inr \<lparr>Routers = addNew (routerKeys ord) (Routers h) (Routers new),
               Services = addNew (serviceKeys ord) (Services h) (Services new),
               Middlewares = addNew (middlewareKeys ord) (Middlewares h) (Middlewares new)\<rparr>)"

definition mergeConfig :: "string list \<Rightarrow> (string \<Rightarrow> keyOrder) \<Rightarrow> (string, ('s, 'm) Configuration) fmap
    \<Rightarrow> panic + ('s, 'm) Configuration" where
  "mergeConfig nodes keys configs =
     (case rangeMapP nodes configs (\<lambda>node c new. mergeOne (keys node) c new)
             \<lparr>Routers = fmempty, Services = fmempty, Middlewares = fmempty\<rparr> of
        Inl e \<Rightarrow> Inl e
      | Inr new \<Rightarrow> Inr \<lparr>HTTP = Some new\<rparr>)"

definition fitsKeys :: "keyOrder \<Rightarrow> ('s, 'm) HTTPConfiguration \<Rightarrow> bool" where
  "fitsKeys ord h \<longleftrightarrow>
     visits (middlewareKeys ord) (Middlewares h) \<and>
     visits (serviceKeys ord) (Services h) \<and>
     visits (routerKeys ord) (Routers h)"

text \<open>
  Two notions for the properties of the merge. The first entry that the fragments, in the
  order of the visit, have for a name is \<open>firstDefined\<close> of the list of their lookups. A fragment resolves its names when every router in it names
  a service and middlewares that the fragment itself holds.
\<close>

fun firstDefined :: "'v option list \<Rightarrow> 'v option" where
  "firstDefined [] = None"
| "firstDefined (None # xs) = firstDefined xs"
| "firstDefined (Some v # xs) = Some v"

definition resolves :: "('s, 'm) HTTPConfiguration \<Rightarrow> bool" where
  "resolves h \<longleftrightarrow>
     (\<forall>k r. fmlookup (Routers h) k = Some (Some r) \<longrightarrow>
        fmlookup (Services h) (Service r) \<noteq> None \<and>
        (\<forall>m\<in>set (Router.Middlewares r). fmlookup (Middlewares h) m \<noteq> None))"

section \<open>One tick of loadConfiguration\<close>

text \<open>
  \<^verbatim>\<open>http.Get\<close> is the parameter \<open>get\<close>: \<open>None\<close> when it returns an error (the request could
  not be made), else the response. It returns no error for a response with a status code
  outside 2xx. \<open>Body\<close> is what \<^verbatim>\<open>io.ReadAll\<close> makes of the body: \<open>None\<close> when it returns an
  error. \<^verbatim>\<open>json.Unmarshal\<close> is the parameter \<open>unmarshal\<close>: \<open>None\<close> when it returns an error.
\<close>

record Response =
  StatusCode :: int
  Body :: "string option"

text \<open>The request and the three checks, each ending in \<^verbatim>\<open>continue\<close> (here \<open>None\<close>).\<close>

definition fetch :: "(string \<Rightarrow> Response option) \<Rightarrow> (string \<Rightarrow> 'c option) \<Rightarrow> endpoint \<Rightarrow> 'c option" where
  "fetch get unmarshal e =
     (case get (''http://'' @ endpoint e @ '':5000/traefik/config'') of
        None \<Rightarrow> None
      | Some resp \<Rightarrow>
          (case Body resp of
             None \<Rightarrow> None
           | Some body \<Rightarrow>
               (case unmarshal body of
                  None \<Rightarrow> None
                | Some conf \<Rightarrow> Some conf)))"

record 'o tickOrder =
  endpointOrder :: "string list"
  policyOrder :: "string \<Rightarrow> 'o"
  mergeNodes :: "string list"
  mergeKeys :: "string \<Rightarrow> keyOrder"

text \<open>
  The body of the loop over \<^verbatim>\<open>p.endpoints\<close> and the tick, with the block that the two files
  do not share as the parameter \<open>policy\<close>. The tick returns the configuration it sends on
  \<^verbatim>\<open>cfgChan\<close> (wrapped in a \<^verbatim>\<open>dynamic.JSONPayload\<close>), or the panic that ends the goroutine.
\<close>

definition loadEndpoint :: "(string \<Rightarrow> ('s, 'm) Configuration \<Rightarrow> panic + ('s, 'm) Configuration)
    \<Rightarrow> (string \<Rightarrow> Response option) \<Rightarrow> (string \<Rightarrow> ('s, 'm) Configuration option)
    \<Rightarrow> string \<Rightarrow> endpoint \<Rightarrow> (string, ('s, 'm) Configuration) fmap
    \<Rightarrow> panic + (string, ('s, 'm) Configuration) fmap" where
  "loadEndpoint policy get unmarshal node e configs =
     (case fetch get unmarshal e of
        None \<Rightarrow> Inr configs
      | Some conf \<Rightarrow>
          (case policy node conf of
             Inl x \<Rightarrow> Inl x
           | Inr conf' \<Rightarrow> Inr (fmupd node conf' configs)))"

definition tickWith :: "(string \<Rightarrow> ('s, 'm) Configuration \<Rightarrow> panic + ('s, 'm) Configuration)
    \<Rightarrow> (string, endpoint) fmap \<Rightarrow> (string \<Rightarrow> Response option)
    \<Rightarrow> (string \<Rightarrow> ('s, 'm) Configuration option) \<Rightarrow> ('o, 'z) tickOrder_scheme
    \<Rightarrow> panic + ('s, 'm) Configuration" where
  "tickWith policy eps get unmarshal ord =
     (case rangeMapP (endpointOrder ord) eps (loadEndpoint policy get unmarshal) fmempty of
        Inl x \<Rightarrow> Inl x
      | Inr configs \<Rightarrow> mergeConfig (mergeNodes ord) (mergeKeys ord) configs)"

definition tick :: "Provider \<Rightarrow> (string \<Rightarrow> Response option)
    \<Rightarrow> (string \<Rightarrow> ('s, 'm) Configuration option) \<Rightarrow> filterOrder tickOrder
    \<Rightarrow> panic + ('s, 'm) Configuration" where
  "tick p get unmarshal ord =
     tickWith (\<lambda>node. filterEntryPoints (entrypoints p) (policyOrder ord node))
       (endpoints p) get unmarshal ord"

definition tick_B :: "'a Provider_B_scheme \<Rightarrow> (string \<Rightarrow> Response option)
    \<Rightarrow> (string \<Rightarrow> ('s, 'm) Configuration option) \<Rightarrow> (string list) tickOrder
    \<Rightarrow> panic + ('s, 'm) Configuration" where
  "tick_B p get unmarshal ord =
     tickWith (\<lambda>node. rewriteMiddlewares (policyOrder ord node))
       (endpoints p) get unmarshal ord"

section \<open>An example fragment\<close>

text \<open>
  Router \<open>R1\<close> is bound to \<open>web\<close> and \<open>websecure\<close>, router \<open>R2\<close> to \<open>internal\<close> only; they
  share the middleware \<open>shared\<close>. The order visits \<open>R2\<close> first.
\<close>

definition exampleFragment :: "(string, string) HTTPConfiguration" where
  "exampleFragment =
     \<lparr>Routers =
        fmupd ''R1'' (Some \<lparr>EntryPoints = [''web'', ''websecure''], Middlewares = [''auth'', ''shared''],
                            Service = ''s1'', Rule = ''Host(`a`)''\<rparr>)
       (fmupd ''R2'' (Some \<lparr>EntryPoints = [''internal''], Middlewares = [''shared'', ''only2''],
                            Service = ''s2'', Rule = ''Host(`b`)''\<rparr>) fmempty),
      Services = fmupd ''s1'' ''http://10.0.0.1'' (fmupd ''s2'' ''http://10.0.0.2'' fmempty),
      Middlewares = fmupd ''auth'' ''basic'' (fmupd ''shared'' ''gzip'' (fmupd ''only2'' ''strip'' fmempty))\<rparr>"

definition exampleOrder :: filterOrder where
  "exampleOrder = \<lparr>routerOrder = [''R2'', ''R1''], deleteOrder = [''R2''],
                    middlewareOrder = [''auth'', ''only2'', ''shared'']\<rparr>"


text \<open>
  Two fragments that both define the service \<open>svc1\<close> and the middleware \<open>auth\<close>, with
  different contents, as the configurations of the nodes \<open>a\<close> and \<open>b\<close>.
\<close>

definition fragmentA :: "(string, string) HTTPConfiguration" where
  "fragmentA =
     \<lparr>Routers = fmupd ''ra'' (Some \<lparr>EntryPoints = [''web''], Middlewares = [''auth''],
                                    Service = ''svc1'', Rule = ''Host(`a`)''\<rparr>) fmempty,
      Services = fmupd ''svc1'' ''http://10.0.0.1'' fmempty,
      Middlewares = fmupd ''auth'' ''basic-a'' fmempty\<rparr>"

definition fragmentB :: "(string, string) HTTPConfiguration" where
  "fragmentB =
     \<lparr>Routers = fmupd ''rb'' (Some \<lparr>EntryPoints = [''web''], Middlewares = [''auth''],
                                    Service = ''svc1'', Rule = ''Host(`b`)''\<rparr>) fmempty,
      Services = fmupd ''svc1'' ''http://10.0.0.2'' fmempty,
      Middlewares = fmupd ''auth'' ''basic-b'' fmempty\<rparr>"

definition exampleConfigs :: "(string, (string, string) Configuration) fmap" where
  "exampleConfigs = fmupd ''a'' \<lparr>HTTP = Some fragmentA\<rparr> (fmupd ''b'' \<lparr>HTTP = Some fragmentB\<rparr> fmempty)"

definition exampleKeys :: "string \<Rightarrow> keyOrder" where
  "exampleKeys n =
     (if n = ''a'' then \<lparr>middlewareKeys = [''auth''], serviceKeys = [''svc1''], routerKeys = [''ra'']\<rparr>
      else \<lparr>middlewareKeys = [''auth''], serviceKeys = [''svc1''], routerKeys = [''rb'']\<rparr>)"


text \<open>A provider with two endpoints and the entry point \<open>web\<close>, after \<^verbatim>\<open>Provide\<close>.\<close>

definition exampleProvider :: Provider where
  "exampleProvider =
     \<lparr>name = ''multi'', pollInterval = 15000000000, pollTimeout = 10000000000,
      endpoints = fmupd ''server1'' \<lparr>endpoint = ''10.0.1.2'', headers = fmempty\<rparr>
                 (fmupd ''server2'' \<lparr>endpoint = ''192.168.0.3'', headers = fmempty\<rparr> fmempty),
      cancel = Some 0, entrypoints = fmupd ''web'' True fmempty\<rparr>"

text \<open>
  A decoder for three bodies: \<open>A\<close> and \<open>B\<close> stand for documents that hold the fragments above,
  and the document \<open>{}\<close> decodes, with no error, to a configuration without \<^verbatim>\<open>http\<close> section.
\<close>

definition exampleUnmarshal :: "string \<Rightarrow> (string, string) Configuration option" where
  "exampleUnmarshal body =
     (if body = ''A'' then Some \<lparr>HTTP = Some fragmentA\<rparr>
      else if body = ''B'' then Some \<lparr>HTTP = Some fragmentB\<rparr>
      else if body = ''{}'' then Some \<lparr>HTTP = None\<rparr>
      else None)"

text \<open>The answers of the two servers: a status code and a body, or no connection.\<close>

definition exampleGet :: "Response option \<Rightarrow> Response option \<Rightarrow> string \<Rightarrow> Response option" where
  "exampleGet r1 r2 url =
     (if url = ''http://10.0.1.2:5000/traefik/config'' then r1
      else if url = ''http://192.168.0.3:5000/traefik/config'' then r2
      else None)"

definition exampleTickOrder :: "string list \<Rightarrow> filterOrder tickOrder" where
  "exampleTickOrder ns =
     \<lparr>endpointOrder = ns,
      policyOrder = (\<lambda>n. if n = ''server1''
         then \<lparr>routerOrder = [''ra''], deleteOrder = [], middlewareOrder = [''auth'']\<rparr>
         else \<lparr>routerOrder = [''rb''], deleteOrder = [], middlewareOrder = [''auth'']\<rparr>),
      mergeNodes = filter (\<lambda>n. n = ''server1'') ns,
      mergeKeys = (\<lambda>n. \<lparr>middlewareKeys = [''auth''], serviceKeys = [''svc1''], routerKeys = [''ra'']\<rparr>)\<rparr>"

definition exampleTickOrder_B :: "string list \<Rightarrow> (string list) tickOrder" where
  "exampleTickOrder_B ns =
     \<lparr>endpointOrder = ns,
      policyOrder = (\<lambda>n. if n = ''server1'' then [''ra''] else [''rb'']),
      mergeNodes = filter (\<lambda>n. n = ''server1'') ns,
      mergeKeys = (\<lambda>n. \<lparr>middlewareKeys = [''auth''], serviceKeys = [''svc1''], routerKeys = [''ra'']\<rparr>)\<rparr>"




section \<open>Initialisation, serialisation, stopping\<close>

lemma len_eq_0: "len m = 0 \<longleftrightarrow> m = fmempty"
proof
  assume "len m = 0"
  then have "fmdom m = {||}" by (simp add: len_def)
  then have "\<And>x. fmlookup m x = None" by (metis fmdom_notD fempty_iff)
  then show "m = fmempty" by (intro fmap_ext) simp
next
  assume "m = fmempty" then show "len m = 0" by (simp add: len_def)
qed

lemma fmupd_not_empty: "fmupd k v m \<noteq> fmempty"
  by (metis fmempty_lookup fmupd_lookup option.distinct(1))

text \<open>
  C7. \<^verbatim>\<open>Init\<close> of \<^verbatim>\<open>provider.go\<close> returns no error exactly when the poll interval and the poll
  timeout are positive and there is at least one endpoint and at least one entry point;
  \<^verbatim>\<open>Init\<close> of the second file asks the same except for the entry points. Each violation
  returns the error that names the first requirement violated.
\<close>

theorem Init_validation:
  "(Init p = None \<longleftrightarrow>
      0 < sint (pollInterval p) \<and> 0 < sint (pollTimeout p) \<and>
      endpoints p \<noteq> fmempty \<and> entrypoints p \<noteq> fmempty) \<and>
   (Init_B q = None \<longleftrightarrow>
      0 < sint (pollInterval q) \<and> 0 < sint (pollTimeout q) \<and> endpoints q \<noteq> fmempty) \<and>
   (sint (pollInterval p) \<le> 0 \<longrightarrow> Init p = Some ''poll interval must be greater than 0'') \<and>
   (0 < sint (pollInterval p) \<and> sint (pollTimeout p) \<le> 0 \<longrightarrow>
      Init p = Some ''poll timeout must be greater than 0'') \<and>
   (0 < sint (pollInterval p) \<and> 0 < sint (pollTimeout p) \<and> endpoints p = fmempty \<longrightarrow>
      Init p = Some ''must provide at least 1 endpoint'') \<and>
   (0 < sint (pollInterval p) \<and> 0 < sint (pollTimeout p) \<and> endpoints p \<noteq> fmempty \<and>
      entrypoints p = fmempty \<longrightarrow> Init p = Some ''must specify at least one entrypoint'') \<and>
   (sint (pollInterval q) \<le> 0 \<longrightarrow> Init_B q = Some ''poll interval must be greater than 0'') \<and>
   (0 < sint (pollInterval q) \<and> sint (pollTimeout q) \<le> 0 \<longrightarrow>
      Init_B q = Some ''poll timeout must be greater than 0'') \<and>
   (0 < sint (pollInterval q) \<and> 0 < sint (pollTimeout q) \<and> endpoints q = fmempty \<longrightarrow>
      Init_B q = Some ''must provide at least 1 endpoint'')"
  by (auto simp add: Init_def Init_B_def len_eq_0 not_le)

theorem Init_validation_witness:
  "Init \<lparr>name = ''multi'', pollInterval = 15000000000, pollTimeout = 10000000000,
         endpoints = fmupd ''server1'' \<lparr>endpoint = ''10.0.1.2'', headers = fmempty\<rparr> fmempty,
         cancel = None, entrypoints = fmupd ''web'' True fmempty\<rparr> = None \<and>
   Init_B \<lparr>name = ''multi'', pollInterval = 15000000000, pollTimeout = 10000000000,
         endpoints = fmupd ''server1'' \<lparr>endpoint = ''10.0.1.2'', headers = fmempty\<rparr> fmempty,
         cancel = None, entrypoints = (fmempty :: (string, bool) fmap)\<rparr> = None \<and>
   Init \<lparr>name = ''multi'', pollInterval = 15000000000, pollTimeout = 10000000000,
         endpoints = fmupd ''server1'' \<lparr>endpoint = ''10.0.1.2'', headers = fmempty\<rparr> fmempty,
         cancel = None, entrypoints = fmempty\<rparr> = Some ''must specify at least one entrypoint'' \<and>
   Init_B \<lparr>name = ''multi'', pollInterval = 0, pollTimeout = 10000000000,
         endpoints = fmupd ''server1'' \<lparr>endpoint = ''10.0.1.2'', headers = fmempty\<rparr> fmempty,
         cancel = None\<rparr> = Some ''poll interval must be greater than 0''"
  using Init_validation [of
      "\<lparr>name = ''multi'', pollInterval = 15000000000, pollTimeout = 10000000000,
         endpoints = fmupd ''server1'' \<lparr>endpoint = ''10.0.1.2'', headers = fmempty\<rparr> fmempty,
         cancel = None, entrypoints = fmupd ''web'' True fmempty\<rparr>"
      "\<lparr>name = ''multi'', pollInterval = 15000000000, pollTimeout = 10000000000,
         endpoints = fmupd ''server1'' \<lparr>endpoint = ''10.0.1.2'', headers = fmempty\<rparr> fmempty,
         cancel = None, entrypoints = (fmempty :: (string, bool) fmap)\<rparr>"]
    Init_validation [of
      "\<lparr>name = ''multi'', pollInterval = 15000000000, pollTimeout = 10000000000,
         endpoints = fmupd ''server1'' \<lparr>endpoint = ''10.0.1.2'', headers = fmempty\<rparr> fmempty,
         cancel = None, entrypoints = fmempty\<rparr>"
      "\<lparr>name = ''multi'', pollInterval = 0, pollTimeout = 10000000000,
         endpoints = fmupd ''server1'' \<lparr>endpoint = ''10.0.1.2'', headers = fmempty\<rparr> fmempty,
         cancel = None\<rparr>"]
  by (simp add: fmupd_not_empty)






text \<open>
  C8. \<^verbatim>\<open>Stop\<close> on the provider that \<^verbatim>\<open>New\<close> returns and \<^verbatim>\<open>Init\<close> accepts, before any call of
  \<^verbatim>\<open>Provide\<close>: the field \<^verbatim>\<open>cancel\<close> is nil and the call panics.
\<close>

theorem Stop_before_Provide:
  "(case New (\<lambda>s. Inr 15000000000) [''server1'']
           \<lparr>PollInterval = ''15s'', PollTimeout = ''10s'',
            Endpoints = fmupd ''server1'' \<lparr>endpoint = ''10.0.1.2'', headers = fmempty\<rparr> fmempty,
            ConfigEntryPoints = [''web'']\<rparr> ''multi'' of
      Inl err \<Rightarrow> False
    | Inr p \<Rightarrow> Init p = None \<and> Stop \<lparr>provider = p, contexts = 0, cancelled = {}\<rparr> = Inl NilDereference)"
  by (simp add: New_def Stop_def Init_def copyEndpoints_def len_def)

text \<open>Once \<^verbatim>\<open>Provide\<close> has run, \<^verbatim>\<open>Stop\<close> returns no error and a second \<^verbatim>\<open>Stop\<close> changes nothing.\<close>

lemma Stop_after_Provide:
  "\<exists>s'. Stop (fst (Provide s)) = Inr (s', None) \<and> Stop s' = Inr (s', None)"
  by (simp add: Stop_def Provide_def Let_def)

section \<open>Policy B: what the rewriting does\<close>

subsection \<open>Replacing the tag in one reference\<close>


lemma Replace1_absent: "occurrences old s = 0 \<Longrightarrow> strings_Replace1 s old new = s"
  by (induction s) (auto split: if_splits)

lemma prefix_before_at:
  "CHR ''@'' \<notin> set t \<Longrightarrow> prefix t (cs @ CHR ''@'' # rest) \<Longrightarrow> prefix t cs"
proof (induction cs arbitrary: t)
  case Nil
  then show ?case by (cases t) auto
next
  case (Cons d ds)
  then show ?case by (cases t) auto
qed

lemma prefix_Replace1:
  "CHR ''@'' \<notin> set t \<Longrightarrow> prefix t (strings_Replace1 s old (CHR ''@'' # new)) \<Longrightarrow> prefix t s"
proof (induction s arbitrary: t)
  case Nil
  then show ?case by (cases t) (auto split: if_splits)
next
  case (Cons d ds)
  then show ?case by (cases t) (auto split: if_splits)
qed

lemma prefix_tag_Cons: "prefix ''@http'' (c # xs) \<longleftrightarrow> c = CHR ''@'' \<and> prefix ''http'' xs"
  by auto

lemma tag_not_prefix_Replace1:
  assumes "\<not> prefix ''@http'' (c # cs)"
  shows "\<not> prefix ''@http'' (c # strings_Replace1 cs ''@http'' ''@plugin-multi-http-provider'')"
proof
  assume "prefix ''@http'' (c # strings_Replace1 cs ''@http'' ''@plugin-multi-http-provider'')"
  then have c: "c = CHR ''@''" and p: "prefix ''http'' (strings_Replace1 cs ''@http'' ''@plugin-multi-http-provider'')"
    unfolding prefix_tag_Cons by blast+
  have "CHR ''@'' \<notin> set ''http''" by simp
  then have "prefix ''http'' cs" using p by (rule prefix_Replace1)
  with c have "prefix ''@http'' (c # cs)" unfolding prefix_tag_Cons by blast
  with assms show False by blast
qed

lemma tag_not_prefix_append:
  assumes "\<not> prefix ''@http'' (c # cs)"
  shows "\<not> prefix ''@http'' (c # cs @ ''@http'' @ post)"
proof
  assume "prefix ''@http'' (c # cs @ ''@http'' @ post)"
  then have c: "c = CHR ''@''" and p: "prefix ''http'' (cs @ ''@http'' @ post)"
    unfolding prefix_tag_Cons by blast+
  have "CHR ''@'' \<notin> set ''http''" by simp
  moreover from p have "prefix ''http'' (cs @ CHR ''@'' # (''http'' @ post))" by simp
  ultimately have "prefix ''http'' cs" by (rule prefix_before_at)
  with c have "prefix ''@http'' (c # cs)" unfolding prefix_tag_Cons by blast
  with assms show False by blast
qed

lemma Replace1_tag_append: "strings_Replace1 (''@http'' @ rest) ''@http'' ''@plugin-multi-http-provider'' = ''@plugin-multi-http-provider'' @ rest"
  by simp

lemma occurrences_tag_append: "occurrences ''@http'' (''@http'' @ rest) = Suc (occurrences ''@http'' rest)"
  by simp

lemma occurrences_ntag_append: "occurrences ''@http'' (''@plugin-multi-http-provider'' @ rest) = occurrences ''@http'' rest"
  by simp

lemma occurrences_Replace1:
  "occurrences ''@http'' (strings_Replace1 s ''@http'' ''@plugin-multi-http-provider'') = occurrences ''@http'' s - 1"
proof (induction s)
  case Nil
  show ?case by simp
next
  case (Cons c cs)
  show ?case
  proof (cases "prefix ''@http'' (c # cs)")
    case True
    then obtain rest where r: "c # cs = ''@http'' @ rest" unfolding prefix_def by blast
    show ?thesis
      unfolding r Replace1_tag_append occurrences_tag_append occurrences_ntag_append by simp
  next
    case False
    then have n: "\<not> prefix ''@http'' (c # strings_Replace1 cs ''@http'' ''@plugin-multi-http-provider'')"
      by (rule tag_not_prefix_Replace1)
    have "strings_Replace1 (c # cs) ''@http'' ''@plugin-multi-http-provider'' = c # strings_Replace1 cs ''@http'' ''@plugin-multi-http-provider''"
      using False by (simp only: strings_Replace1.simps if_False)
    moreover have "occurrences ''@http'' (c # strings_Replace1 cs ''@http'' ''@plugin-multi-http-provider'')
        = occurrences ''@http'' (strings_Replace1 cs ''@http'' ''@plugin-multi-http-provider'')"
      using n by (simp only: occurrences.simps if_False add_0)
    moreover have "occurrences ''@http'' (c # cs) = occurrences ''@http'' cs"
      using False by (simp only: occurrences.simps if_False add_0)
    ultimately show ?thesis using Cons.IH by (simp only:)
  qed
qed

lemma length_Replace1:
  "occurrences ''@http'' s \<noteq> 0 \<Longrightarrow> length (strings_Replace1 s ''@http'' ''@plugin-multi-http-provider'') = length s + 22"
proof (induction s)
  case Nil
  then show ?case by simp
next
  case (Cons c cs)
  show ?case
  proof (cases "prefix ''@http'' (c # cs)")
    case True
    then obtain rest where r: "c # cs = ''@http'' @ rest" unfolding prefix_def by blast
    show ?thesis unfolding r Replace1_tag_append by simp
  next
    case False
    have e: "strings_Replace1 (c # cs) ''@http'' ''@plugin-multi-http-provider'' = c # strings_Replace1 cs ''@http'' ''@plugin-multi-http-provider''"
      using False by (simp only: strings_Replace1.simps if_False)
    have "occurrences ''@http'' (c # cs) = occurrences ''@http'' cs"
      using False by (simp only: occurrences.simps if_False add_0)
    with Cons.prems have "occurrences ''@http'' cs \<noteq> 0" by metis
    then have "length (strings_Replace1 cs ''@http'' ''@plugin-multi-http-provider'') = length cs + 22" by (rule Cons.IH)
    then show ?thesis unfolding e by simp
  qed
qed

lemma Replace1_idem_iff:
  "strings_Replace1 (strings_Replace1 s ''@http'' ''@plugin-multi-http-provider'') ''@http'' ''@plugin-multi-http-provider'' = strings_Replace1 s ''@http'' ''@plugin-multi-http-provider''
     \<longleftrightarrow> occurrences ''@http'' s \<le> 1"
proof
  assume "occurrences ''@http'' s \<le> 1"
  then have "occurrences ''@http'' (strings_Replace1 s ''@http'' ''@plugin-multi-http-provider'') = 0"
    unfolding occurrences_Replace1 by simp
  then show "strings_Replace1 (strings_Replace1 s ''@http'' ''@plugin-multi-http-provider'') ''@http'' ''@plugin-multi-http-provider'' = strings_Replace1 s ''@http'' ''@plugin-multi-http-provider''"
    by (rule Replace1_absent)
next
  assume eq: "strings_Replace1 (strings_Replace1 s ''@http'' ''@plugin-multi-http-provider'') ''@http'' ''@plugin-multi-http-provider'' = strings_Replace1 s ''@http'' ''@plugin-multi-http-provider''"
  show "occurrences ''@http'' s \<le> 1"
  proof (rule ccontr)
    assume "\<not> occurrences ''@http'' s \<le> 1"
    then have "occurrences ''@http'' (strings_Replace1 s ''@http'' ''@plugin-multi-http-provider'') \<noteq> 0"
      unfolding occurrences_Replace1 by simp
    then have "length (strings_Replace1 (strings_Replace1 s ''@http'' ''@plugin-multi-http-provider'') ''@http'' ''@plugin-multi-http-provider'')
        = length (strings_Replace1 s ''@http'' ''@plugin-multi-http-provider'') + 22"
      by (rule length_Replace1)
    with eq show False by simp
  qed
qed

lemma Replace1_first:
  "occurrences ''@http'' pre = 0 \<Longrightarrow> strings_Replace1 (pre @ ''@http'' @ post) ''@http'' ''@plugin-multi-http-provider'' = pre @ ''@plugin-multi-http-provider'' @ post"
proof (induction pre)
  case Nil
  show ?case by simp
next
  case (Cons c cs)
  have o: "occurrences ''@http'' (c # cs) = (if prefix ''@http'' (c # cs) then 1 else 0) + occurrences ''@http'' cs"
    by (simp only: occurrences.simps)
  from Cons.prems have np: "\<not> prefix ''@http'' (c # cs)" and occ: "occurrences ''@http'' cs = 0"
    unfolding o by (auto split: if_splits)
  from np have "\<not> prefix ''@http'' (c # cs @ ''@http'' @ post)" by (rule tag_not_prefix_append)
  then have "strings_Replace1 ((c # cs) @ ''@http'' @ post) ''@http'' ''@plugin-multi-http-provider''
      = c # strings_Replace1 (cs @ ''@http'' @ post) ''@http'' ''@plugin-multi-http-provider''"
    by (simp only: append_Cons strings_Replace1.simps if_False)
  with Cons.IH [OF occ] show ?case by (simp only: append_Cons)
qed

subsection \<open>The rewriting of a fragment\<close>

lemma rangeMapP_rewriteRouter:
  assumes "\<forall>k\<in>set ks. fmlookup m k \<noteq> Some None"
  shows "\<exists>h'. rangeMapP ks m rewriteRouter h = Inr h' \<and>
           Services h' = Services h \<and> Middlewares h' = Middlewares h \<and>
           (\<forall>k. fmlookup (Routers h') k =
              (if k \<in> set ks \<and> fmlookup m k \<noteq> None
               then map_option (map_option rewriteRefs) (fmlookup m k)
               else fmlookup (Routers h) k))"
  using assms
proof (induction ks arbitrary: h)
  case Nil
  show ?case by simp
next
  case (Cons a ks)
  show ?case
  proof (cases "fmlookup m a")
    case None
    with Cons.IH [of h] Cons.prems show ?thesis by auto
  next
    case (Some v)
    with Cons.prems obtain r where v: "v = Some r" by (cases v) auto
    let ?h1 = "h\<lparr>Routers := fmupd a (Some (rewriteRefs r)) (Routers h)\<rparr>"
    from Cons.prems have "\<forall>k\<in>set ks. fmlookup m k \<noteq> Some None" by simp
    from Cons.IH [OF this, of ?h1] obtain h' where
      h': "rangeMapP ks m rewriteRouter ?h1 = Inr h'"
        "Services h' = Services h" "Middlewares h' = Middlewares h"
        "\<And>k. fmlookup (Routers h') k =
              (if k \<in> set ks \<and> fmlookup m k \<noteq> None
               then map_option (map_option rewriteRefs) (fmlookup m k)
               else fmlookup (Routers ?h1) k)"
      by auto
    have "rangeMapP (a # ks) m rewriteRouter h = Inr h'"
      using Some v h'(1) by (simp add: rewriteRouter_def)
    moreover have "\<forall>k. fmlookup (Routers h') k =
              (if k \<in> set (a # ks) \<and> fmlookup m k \<noteq> None
               then map_option (map_option rewriteRefs) (fmlookup m k)
               else fmlookup (Routers h) k)"
      using h'(4) Some v by auto
    ultimately show ?thesis using h'(2,3) by blast
  qed
qed

lemma fmap_eq_iff: "m = n \<longleftrightarrow> (\<forall>k. fmlookup m k = fmlookup n k)"
proof
  assume "\<forall>k. fmlookup m k = fmlookup n k"
  then show "m = n" by (intro fmap_ext) simp
qed simp

lemma Routers_update_eq:
  "h\<lparr>Routers := a\<rparr> = h\<lparr>Routers := b\<rparr> \<longleftrightarrow> a = b"
proof
  assume "h\<lparr>Routers := a\<rparr> = h\<lparr>Routers := b\<rparr>"
  then have "Routers (h\<lparr>Routers := a\<rparr>) = Routers (h\<lparr>Routers := b\<rparr>)" by simp
  then show "a = b" by simp
qed simp

lemma Middlewares_update_eq:
  "r\<lparr>Router.Middlewares := a\<rparr> = r\<lparr>Router.Middlewares := b\<rparr> \<longleftrightarrow> a = b"
proof
  assume "r\<lparr>Router.Middlewares := a\<rparr> = r\<lparr>Router.Middlewares := b\<rparr>"
  then have "Router.Middlewares (r\<lparr>Router.Middlewares := a\<rparr>)
      = Router.Middlewares (r\<lparr>Router.Middlewares := b\<rparr>)" by simp
  then show "a = b" by simp
qed simp

lemma visits_mem: "visits ks m \<Longrightarrow> k \<in> set ks \<longleftrightarrow> fmlookup m k \<noteq> None"
  by (simp add: visits_def fmlookup_dom'_iff)

lemma rewriteMiddlewares_result:
  fixes h :: "('s, 'm) HTTPConfiguration"
  assumes v: "visits ks (Routers h)" and n: "noNilRouter h"
  shows "rewriteMiddlewares ks \<lparr>HTTP = Some h\<rparr>
       = Inr \<lparr>HTTP = Some (h\<lparr>Routers := fmmap (map_option rewriteRefs) (Routers h)\<rparr>)\<rparr>"
proof -
  from n have "\<forall>k\<in>set ks. fmlookup (Routers h) k \<noteq> Some None" by (simp add: noNilRouter_def)
  from rangeMapP_rewriteRouter [OF this, of h] obtain h' where
    h1: "rangeMapP ks (Routers h) rewriteRouter h = Inr h'" and
    h2: "Services h' = Services h" and h3: "Middlewares h' = Middlewares h" and
    h4: "\<forall>k. fmlookup (Routers h') k =
              (if k \<in> set ks \<and> fmlookup (Routers h) k \<noteq> None
               then map_option (map_option rewriteRefs) (fmlookup (Routers h) k)
               else fmlookup (Routers h) k)"
    by blast
  have "Routers h' = fmmap (map_option rewriteRefs) (Routers h)"
  proof (rule fmap_ext)
    fix k
    show "fmlookup (Routers h') k = fmlookup (fmmap (map_option rewriteRefs) (Routers h)) k"
      using h4 [rule_format, of k] visits_mem [OF v, of k]
      by (cases "fmlookup (Routers h) k") simp_all
  qed
  with h2 h3 have "h' = h\<lparr>Routers := fmmap (map_option rewriteRefs) (Routers h)\<rparr>"
    by simp
  with h1 show ?thesis by (simp add: rewriteMiddlewares_def)
qed

lemma rewriteRefs_idem_iff:
  "rewriteRefs (rewriteRefs r) = rewriteRefs r
     \<longleftrightarrow> (\<forall>m\<in>set (Router.Middlewares r). occurrences ''@http'' m \<le> 1)"
proof -
  have "rewriteRefs (rewriteRefs r) = rewriteRefs r \<longleftrightarrow>
      map (\<lambda>m. strings_Replace1 m ''@http'' ''@plugin-multi-http-provider'')
        (map (\<lambda>m. strings_Replace1 m ''@http'' ''@plugin-multi-http-provider'') (Router.Middlewares r))
      = map (\<lambda>m. strings_Replace1 m ''@http'' ''@plugin-multi-http-provider'') (Router.Middlewares r)"
    by (simp add: rewriteRefs_def Middlewares_update_eq del: map_map)
  also have "\<dots> \<longleftrightarrow> (\<forall>m\<in>set (Router.Middlewares r).
      strings_Replace1 (strings_Replace1 m ''@http'' ''@plugin-multi-http-provider'')
        ''@http'' ''@plugin-multi-http-provider''
      = strings_Replace1 m ''@http'' ''@plugin-multi-http-provider'')"
    by simp
  finally show ?thesis unfolding Replace1_idem_iff .
qed

lemma fmupd_inject: "fmupd k a m = fmupd k b n \<Longrightarrow> a = b"
proof -
  assume "fmupd k a m = fmupd k b n"
  then have "fmlookup (fmupd k a m) k = fmlookup (fmupd k b n) k" by simp
  then show "a = b" by simp
qed


text \<open>
  C3. On a fragment with no nil router, whatever the order of the visit, the rewriting
  replaces every router's list of middleware references by the list in which each reference
  has its first occurrence of \<open>@http\<close> replaced by \<open>@plugin-multi-http-provider\<close>, and
  changes nothing else. Rewriting the result again leaves it unchanged exactly when no
  reference of the fragment contains \<open>@http\<close> more than once.
\<close>

theorem rewriteMiddlewares_idempotent:
  fixes h :: "('s, 'm) HTTPConfiguration"
  assumes "visits ks (Routers h)" and "visits ks' (Routers h)" and "noNilRouter h"
  shows "\<exists>h'. rewriteMiddlewares ks \<lparr>HTTP = Some h\<rparr> = Inr \<lparr>HTTP = Some h'\<rparr> \<and>
           h' = h\<lparr>Routers := fmmap (map_option rewriteRefs) (Routers h)\<rparr> \<and>
           (rewriteMiddlewares ks' \<lparr>HTTP = Some h'\<rparr> = Inr \<lparr>HTTP = Some h'\<rparr> \<longleftrightarrow>
              (\<forall>k r. fmlookup (Routers h) k = Some (Some r) \<longrightarrow>
                 (\<forall>m\<in>set (Router.Middlewares r). occurrences ''@http'' m \<le> 1)))"
proof -
  let ?h' = "h\<lparr>Routers := fmmap (map_option rewriteRefs) (Routers h)\<rparr>"
  have 1: "rewriteMiddlewares ks \<lparr>HTTP = Some h\<rparr> = Inr \<lparr>HTTP = Some ?h'\<rparr>"
    using assms(1,3) by (rule rewriteMiddlewares_result)
  have v: "visits ks' (Routers ?h')" using assms(2) by (simp add: visits_def)
  have n: "noNilRouter ?h'" using assms(3) by (auto simp: noNilRouter_def)
  have 2: "rewriteMiddlewares ks' \<lparr>HTTP = Some ?h'\<rparr>
      = Inr \<lparr>HTTP = Some (?h'\<lparr>Routers := fmmap (map_option rewriteRefs) (Routers ?h')\<rparr>)\<rparr>"
    using v n by (rule rewriteMiddlewares_result)
  have "rewriteMiddlewares ks' \<lparr>HTTP = Some ?h'\<rparr> = Inr \<lparr>HTTP = Some ?h'\<rparr> \<longleftrightarrow>
      fmmap (map_option rewriteRefs) (fmmap (map_option rewriteRefs) (Routers h))
        = fmmap (map_option rewriteRefs) (Routers h)"
    unfolding 2 by (simp add: Routers_update_eq)
  also have "\<dots> \<longleftrightarrow> (\<forall>k. fmlookup (fmmap (map_option rewriteRefs) (fmmap (map_option rewriteRefs) (Routers h))) k
        = fmlookup (fmmap (map_option rewriteRefs) (Routers h)) k)"
    by (rule fmap_eq_iff)
  also have "\<dots> \<longleftrightarrow> (\<forall>k r. fmlookup (Routers h) k = Some (Some r) \<longrightarrow>
       rewriteRefs (rewriteRefs r) = rewriteRefs r)"
  proof
    assume a: "\<forall>k. fmlookup (fmmap (map_option rewriteRefs) (fmmap (map_option rewriteRefs) (Routers h))) k
        = fmlookup (fmmap (map_option rewriteRefs) (Routers h)) k"
    show "\<forall>k r. fmlookup (Routers h) k = Some (Some r) \<longrightarrow> rewriteRefs (rewriteRefs r) = rewriteRefs r"
    proof (intro allI impI)
      fix k r assume "fmlookup (Routers h) k = Some (Some r)"
      with a [rule_format, of k] show "rewriteRefs (rewriteRefs r) = rewriteRefs r" by simp
    qed
  next
    assume a: "\<forall>k r. fmlookup (Routers h) k = Some (Some r) \<longrightarrow> rewriteRefs (rewriteRefs r) = rewriteRefs r"
    show "\<forall>k. fmlookup (fmmap (map_option rewriteRefs) (fmmap (map_option rewriteRefs) (Routers h))) k
        = fmlookup (fmmap (map_option rewriteRefs) (Routers h)) k"
    proof
      fix k
      show "fmlookup (fmmap (map_option rewriteRefs) (fmmap (map_option rewriteRefs) (Routers h))) k
        = fmlookup (fmmap (map_option rewriteRefs) (Routers h)) k"
      proof (cases "fmlookup (Routers h) k")
        case None then show ?thesis by simp
      next
        case (Some v)
        then show ?thesis using a by (cases v) auto
      qed
    qed
  qed
  finally have 3: "rewriteMiddlewares ks' \<lparr>HTTP = Some ?h'\<rparr> = Inr \<lparr>HTTP = Some ?h'\<rparr> \<longleftrightarrow>
      (\<forall>k r. fmlookup (Routers h) k = Some (Some r) \<longrightarrow>
                 (\<forall>m\<in>set (Router.Middlewares r). occurrences ''@http'' m \<le> 1))"
    unfolding rewriteRefs_idem_iff .
  from 1 3 show ?thesis by blast
qed

theorem rewriteMiddlewares_idempotent_witness:
  "rewriteMiddlewares [''r2'', ''r1'']
     \<lparr>HTTP = Some \<lparr>Routers =
          fmupd ''r1'' (Some \<lparr>EntryPoints = [''web''], Middlewares = [''auth@http'', ''gzip@file''],
             Service = ''svc'', Rule = ''Host(`a`)''\<rparr>)
         (fmupd ''r2'' (Some \<lparr>EntryPoints = [''web''], Middlewares = [],
             Service = ''svc'', Rule = ''Host(`b`)''\<rparr>) fmempty),
        Services = fmupd ''svc'' () fmempty, Middlewares = fmupd ''auth'' () fmempty\<rparr>\<rparr>
   = Inr \<lparr>HTTP = Some \<lparr>Routers =
          fmupd ''r1'' (Some \<lparr>EntryPoints = [''web''],
             Middlewares = [''auth@plugin-multi-http-provider'', ''gzip@file''],
             Service = ''svc'', Rule = ''Host(`a`)''\<rparr>)
         (fmupd ''r2'' (Some \<lparr>EntryPoints = [''web''], Middlewares = [],
             Service = ''svc'', Rule = ''Host(`b`)''\<rparr>) fmempty),
        Services = fmupd ''svc'' () fmempty, Middlewares = fmupd ''auth'' () fmempty\<rparr>\<rparr> \<and>
   rewriteMiddlewares [''r1'', ''r2'']
     \<lparr>HTTP = Some \<lparr>Routers =
          fmupd ''r1'' (Some \<lparr>EntryPoints = [''web''],
             Middlewares = [''auth@plugin-multi-http-provider'', ''gzip@file''],
             Service = ''svc'', Rule = ''Host(`a`)''\<rparr>)
         (fmupd ''r2'' (Some \<lparr>EntryPoints = [''web''], Middlewares = [],
             Service = ''svc'', Rule = ''Host(`b`)''\<rparr>) fmempty),
        Services = fmupd ''svc'' () fmempty, Middlewares = fmupd ''auth'' () fmempty\<rparr>\<rparr>
   = Inr \<lparr>HTTP = Some \<lparr>Routers =
          fmupd ''r1'' (Some \<lparr>EntryPoints = [''web''],
             Middlewares = [''auth@plugin-multi-http-provider'', ''gzip@file''],
             Service = ''svc'', Rule = ''Host(`a`)''\<rparr>)
         (fmupd ''r2'' (Some \<lparr>EntryPoints = [''web''], Middlewares = [],
             Service = ''svc'', Rule = ''Host(`b`)''\<rparr>) fmempty),
        Services = fmupd ''svc'' () fmempty, Middlewares = fmupd ''auth'' () fmempty\<rparr>\<rparr>"
  using rewriteMiddlewares_idempotent [of "[''r2'', ''r1'']"
     "\<lparr>Routers =
          fmupd ''r1'' (Some \<lparr>EntryPoints = [''web''], Middlewares = [''auth@http'', ''gzip@file''],
             Service = ''svc'', Rule = ''Host(`a`)''\<rparr>)
         (fmupd ''r2'' (Some \<lparr>EntryPoints = [''web''], Middlewares = [],
             Service = ''svc'', Rule = ''Host(`b`)''\<rparr>) fmempty),
        Services = fmupd ''svc'' () fmempty, Middlewares = fmupd ''auth'' () fmempty\<rparr>"
     "[''r1'', ''r2'']"]
  by (simp add: visits_def noNilRouter_def fmmap_fmupd rewriteRefs_def insert_commute)

text \<open>
  The reference \<open>auth@http@http\<close>: the first rewriting replaces the first tag, the second
  rewriting the other one, so the second rewriting changes its input.
\<close>

theorem rewriteMiddlewares_twice_counterexample:
  "rewriteMiddlewares [''r'']
     \<lparr>HTTP = Some \<lparr>Routers = fmupd ''r'' (Some \<lparr>EntryPoints = [''web''],
          Middlewares = [''auth@http@http''], Service = ''svc'', Rule = ''Host(`a`)''\<rparr>) fmempty,
        Services = fmupd ''svc'' () fmempty, Middlewares = (fmempty :: (string, unit) fmap)\<rparr>\<rparr>
   = Inr \<lparr>HTTP = Some \<lparr>Routers = fmupd ''r'' (Some \<lparr>EntryPoints = [''web''],
          Middlewares = [''auth@plugin-multi-http-provider@http''], Service = ''svc'', Rule = ''Host(`a`)''\<rparr>) fmempty,
        Services = fmupd ''svc'' () fmempty, Middlewares = fmempty\<rparr>\<rparr> \<and>
   rewriteMiddlewares [''r'']
     \<lparr>HTTP = Some \<lparr>Routers = fmupd ''r'' (Some \<lparr>EntryPoints = [''web''],
          Middlewares = [''auth@plugin-multi-http-provider@http''], Service = ''svc'', Rule = ''Host(`a`)''\<rparr>) fmempty,
        Services = fmupd ''svc'' () fmempty, Middlewares = (fmempty :: (string, unit) fmap)\<rparr>\<rparr>
   \<noteq> Inr \<lparr>HTTP = Some \<lparr>Routers = fmupd ''r'' (Some \<lparr>EntryPoints = [''web''],
          Middlewares = [''auth@plugin-multi-http-provider@http''], Service = ''svc'', Rule = ''Host(`a`)''\<rparr>) fmempty,
        Services = fmupd ''svc'' () fmempty, Middlewares = fmempty\<rparr>\<rparr>"
  by (auto simp add: rewriteMiddlewares_def rewriteRouter_def rewriteRefs_def dest!: fmupd_inject)

text \<open>One reference: the replacement is made at the first occurrence, and only there.\<close>

lemma Replace1_auth: "strings_Replace1 ''auth@http'' ''@http'' ''@plugin-multi-http-provider''
    = ''auth@plugin-multi-http-provider''"
  by simp


section \<open>Policy A: what the filtering does\<close>

subsection \<open>The three loops\<close>

lemma markSeen_lookup:
  "fmlookup (markSeen ms t) x =
     (case fmlookup t x of Some b \<Rightarrow> Some b | None \<Rightarrow> if x \<in> set ms then Some True else None)"
  unfolding markSeen_def
  by (induction ms arbitrary: t) (auto split: option.splits)

lemma markKept_lookup:
  "fmlookup (markKept ms t) x = (if x \<in> set ms then Some False else fmlookup t x)"
  unfolding markKept_def
  by (induction ms arbitrary: t) auto

lemma markRouter_Some:
  "markRouter eps k (Some r) (h, td, tdm) =
     Inr (h\<lparr>Routers := fmupd k (Some (r\<lparr>EntryPoints := recognized eps r\<rparr>)) (Routers h)\<rparr>,
          if recognized eps r = [] then fmupd k (Service r) td else td,
          if recognized eps r = [] then markSeen (Router.Middlewares r) tdm
          else markKept (Router.Middlewares r) (markSeen (Router.Middlewares r) tdm))"
  by (simp add: markRouter_def Let_def)

lemma markRouter_None: "markRouter eps k None st = Inl NilDereference"
  by (simp add: markRouter_def split: prod.splits)

text \<open>The first loop never panics on a map without nil routers.\<close>

lemma scan_Inr:
  assumes "\<forall>k\<in>set ks. fmlookup m k \<noteq> Some None"
  shows "\<exists>h' td' tdm'. rangeMapP ks m (markRouter eps) (h, td, tdm) = Inr (h', td', tdm')"
  using assms
proof (induction ks arbitrary: h td tdm)
  case Nil
  show ?case by simp
next
  case (Cons a ks)
  from Cons.prems have ks: "\<forall>k\<in>set ks. fmlookup m k \<noteq> Some None" by simp
  show ?case
  proof (cases "fmlookup m a")
    case None
    with Cons.IH [OF ks] show ?thesis by simp
  next
    case (Some v)
    with Cons.prems obtain r where v: "v = Some r" by (cases v) auto
    show ?thesis using Cons.IH [OF ks] by (simp add: Some v markRouter_Some)
  qed
qed

lemma scan_step:
  assumes "rangeMapP (a # ks) m (markRouter eps) (h, td, tdm) = Inr res"
  shows "(fmlookup m a = None \<and> rangeMapP ks m (markRouter eps) (h, td, tdm) = Inr res) \<or>
         (\<exists>r. fmlookup m a = Some (Some r) \<and>
            rangeMapP ks m (markRouter eps)
              (h\<lparr>Routers := fmupd a (Some (r\<lparr>EntryPoints := recognized eps r\<rparr>)) (Routers h)\<rparr>,
               if recognized eps r = [] then fmupd a (Service r) td else td,
               if recognized eps r = [] then markSeen (Router.Middlewares r) tdm
               else markKept (Router.Middlewares r) (markSeen (Router.Middlewares r) tdm)) = Inr res)"
proof (cases "fmlookup m a")
  case None
  with assms show ?thesis by simp
next
  case (Some v)
  show ?thesis
  proof (cases v)
    case None
    with Some assms show ?thesis by (simp add: markRouter_None)
  next
    case (Some r)
    with \<open>fmlookup m a = Some v\<close> assms show ?thesis by (simp add: markRouter_Some)
  qed
qed

lemma scan_routers:
  assumes "rangeMapP ks m (markRouter eps) (h, td, tdm) = Inr (h', td', tdm')"
  shows "Services h' = Services h \<and> Middlewares h' = Middlewares h \<and>
         (\<forall>k. fmlookup (Routers h') k =
            (if k \<in> set ks \<and> fmlookup m k \<noteq> None
             then map_option (map_option (\<lambda>r. r\<lparr>EntryPoints := recognized eps r\<rparr>)) (fmlookup m k)
             else fmlookup (Routers h) k))"
  using assms
proof (induction ks arbitrary: h td tdm)
  case Nil
  then show ?case by simp
next
  case (Cons a ks)
  from scan_step [OF Cons.prems] show ?case
  proof (elim disjE conjE exE)
    assume n: "fmlookup m a = None" and r: "rangeMapP ks m (markRouter eps) (h, td, tdm) = Inr (h', td', tdm')"
    from Cons.IH [OF r] n show ?thesis by auto
  next
    fix r
    assume s: "fmlookup m a = Some (Some r)" and
      r: "rangeMapP ks m (markRouter eps)
              (h\<lparr>Routers := fmupd a (Some (r\<lparr>EntryPoints := recognized eps r\<rparr>)) (Routers h)\<rparr>,
               if recognized eps r = [] then fmupd a (Service r) td else td,
               if recognized eps r = [] then markSeen (Router.Middlewares r) tdm
               else markKept (Router.Middlewares r) (markSeen (Router.Middlewares r) tdm)) = Inr (h', td', tdm')"
    from Cons.IH [OF r] s show ?thesis by auto
  qed
qed

lemma scan_toDelete:
  assumes "rangeMapP ks m (markRouter eps) (h, td, tdm) = Inr (h', td', tdm')"
  shows "fmlookup td' k =
           (if \<exists>r. k \<in> set ks \<and> fmlookup m k = Some (Some r) \<and> recognized eps r = []
            then map_option Service (the (fmlookup m k)) else fmlookup td k)"
  using assms
proof (induction ks arbitrary: h td tdm)
  case Nil
  then show ?case by simp
next
  case (Cons a ks)
  from scan_step [OF Cons.prems] show ?case
  proof (elim disjE conjE exE)
    assume n: "fmlookup m a = None" and r: "rangeMapP ks m (markRouter eps) (h, td, tdm) = Inr (h', td', tdm')"
    from Cons.IH [OF r] n show ?thesis by auto
  next
    fix r
    assume s: "fmlookup m a = Some (Some r)" and
      r: "rangeMapP ks m (markRouter eps)
              (h\<lparr>Routers := fmupd a (Some (r\<lparr>EntryPoints := recognized eps r\<rparr>)) (Routers h)\<rparr>,
               if recognized eps r = [] then fmupd a (Service r) td else td,
               if recognized eps r = [] then markSeen (Router.Middlewares r) tdm
               else markKept (Router.Middlewares r) (markSeen (Router.Middlewares r) tdm)) = Inr (h', td', tdm')"
    from Cons.IH [OF r] s show ?thesis by auto
  qed
qed

lemma scan_marked:
  assumes "rangeMapP ks m (markRouter eps) (h, td, tdm) = Inr (h', td', tdm')"
  shows "fmlookup tdm' x =
           (if \<exists>k\<in>set ks. \<exists>r. fmlookup m k = Some (Some r) \<and> recognized eps r \<noteq> [] \<and>
                 x \<in> set (Router.Middlewares r)
            then Some False
            else case fmlookup tdm x of
                   Some b \<Rightarrow> Some b
                 | None \<Rightarrow>
                     if \<exists>k\<in>set ks. \<exists>r. fmlookup m k = Some (Some r) \<and> x \<in> set (Router.Middlewares r)
                     then Some True else None)"
  using assms
proof (induction ks arbitrary: h td tdm)
  case Nil
  then show ?case by (simp split: option.splits)
next
  case (Cons a ks)
  let ?K = "\<lambda>ks. \<exists>k\<in>set ks. \<exists>r. fmlookup m k = Some (Some r) \<and> recognized eps r \<noteq> [] \<and>
                 x \<in> set (Router.Middlewares r)"
  let ?A = "\<lambda>ks. \<exists>k\<in>set ks. \<exists>r. fmlookup m k = Some (Some r) \<and> x \<in> set (Router.Middlewares r)"
  from scan_step [OF Cons.prems] show ?case
  proof (elim disjE conjE exE)
    assume n: "fmlookup m a = None" and r: "rangeMapP ks m (markRouter eps) (h, td, tdm) = Inr (h', td', tdm')"
    from n have "?K (a # ks) = ?K ks" "?A (a # ks) = ?A ks" by auto
    with Cons.IH [OF r] show ?thesis by (simp only:)
  next
    fix r
    let ?t1 = "if recognized eps r = [] then markSeen (Router.Middlewares r) tdm
               else markKept (Router.Middlewares r) (markSeen (Router.Middlewares r) tdm)"
    assume s: "fmlookup m a = Some (Some r)" and
      r: "rangeMapP ks m (markRouter eps)
              (h\<lparr>Routers := fmupd a (Some (r\<lparr>EntryPoints := recognized eps r\<rparr>)) (Routers h)\<rparr>,
               if recognized eps r = [] then fmupd a (Service r) td else td, ?t1) = Inr (h', td', tdm')"
    define Kb where "Kb = ?K ks"
    define Ab where "Ab = ?A ks"
    define Rb where "Rb \<longleftrightarrow> recognized eps r \<noteq> []"
    define Xb where "Xb \<longleftrightarrow> x \<in> set (Router.Middlewares r)"
    have K: "?K (a # ks) \<longleftrightarrow> (Rb \<and> Xb) \<or> Kb"
      using s unfolding Kb_def Rb_def Xb_def by auto
    have A: "?A (a # ks) \<longleftrightarrow> Xb \<or> Ab"
      using s unfolding Ab_def Xb_def by auto
    have t1: "fmlookup ?t1 x =
        (if Rb \<and> Xb then Some False
         else case fmlookup tdm x of Some b \<Rightarrow> Some b
              | None \<Rightarrow> if Xb then Some True else None)"
      unfolding Rb_def Xb_def
      by (simp add: markSeen_lookup markKept_lookup split: option.splits)
    have IH: "fmlookup tdm' x =
           (if Kb then Some False
            else case fmlookup ?t1 x of Some b \<Rightarrow> Some b
                 | None \<Rightarrow> if Ab then Some True else None)"
      unfolding Kb_def Ab_def by (rule Cons.IH [OF r])
    show ?thesis
      unfolding K A IH t1
      by (cases "fmlookup tdm x"; cases Kb; cases Ab; cases Xb; cases Rb; simp)
  qed
qed

lemma deleteMarked_lookup:
  "Middlewares (deleteMarked ds td h) = Middlewares h \<and>
   (\<forall>k. fmlookup (Routers (deleteMarked ds td h)) k =
      (if k \<in> set ds \<and> fmlookup td k \<noteq> None then None else fmlookup (Routers h) k)) \<and>
   (\<forall>s. fmlookup (Services (deleteMarked ds td h)) s =
      (if \<exists>k\<in>set ds. fmlookup td k = Some s then None else fmlookup (Services h) s))"
  unfolding deleteMarked_def
proof (induction ds arbitrary: h)
  case Nil
  show ?case by simp
next
  case (Cons a ds)
  show ?case
  proof (cases "fmlookup td a")
    case None
    with Cons [of h] show ?thesis by auto
  next
    case (Some v)
    with Cons [of "h\<lparr>Routers := fmdrop a (Routers h), Services := fmdrop v (Services h)\<rparr>"]
    show ?thesis by auto
  qed
qed

lemma deleteMiddlewares_lookup:
  "Routers (deleteMiddlewares ms tdm h) = Routers h \<and>
   Services (deleteMiddlewares ms tdm h) = Services h \<and>
   (\<forall>x. fmlookup (Middlewares (deleteMiddlewares ms tdm h)) x =
      (if x \<in> set ms \<and> fmlookup tdm x = Some True then None else fmlookup (Middlewares h) x))"
  unfolding deleteMiddlewares_def
proof (induction ms arbitrary: h)
  case Nil
  show ?case by simp
next
  case (Cons a ms)
  show ?case
  proof (cases "fmlookup tdm a")
    case None
    with Cons [of h] show ?thesis by auto
  next
    case (Some v)
    with Cons [of h] Cons [of "h\<lparr>Middlewares := fmdrop a (Middlewares h)\<rparr>"]
    show ?thesis by (cases v) auto
  qed
qed

subsection \<open>The filtered fragment\<close>

lemma filterEntryPoints_result:
  fixes h :: "('s, 'm) HTTPConfiguration"
  assumes n: "noNilRouter h" and f: "fitsFilter eps ord h"
  shows "\<exists>h'. filterEntryPoints eps ord \<lparr>HTTP = Some h\<rparr> = Inr \<lparr>HTTP = Some h'\<rparr> \<and>
    (\<forall>k. fmlookup (Routers h') k =
       (case fmlookup (Routers h) k of
          Some (Some r) \<Rightarrow>
            if recognized eps r = [] then None
            else Some (Some (r\<lparr>EntryPoints := recognized eps r\<rparr>))
        | _ \<Rightarrow> None)) \<and>
    (\<forall>s. fmlookup (Services h') s =
       (if \<exists>k r. fmlookup (Routers h) k = Some (Some r) \<and> recognized eps r = [] \<and> Service r = s
        then None else fmlookup (Services h) s)) \<and>
    (\<forall>x. fmlookup (Middlewares h') x =
       (if (\<exists>k r. fmlookup (Routers h) k = Some (Some r) \<and> x \<in> set (Router.Middlewares r)) \<and>
           \<not> (\<exists>k r. fmlookup (Routers h) k = Some (Some r) \<and> recognized eps r \<noteq> [] \<and>
                  x \<in> set (Router.Middlewares r))
        then None else fmlookup (Middlewares h) x))"
proof -
  let ?ks = "routerOrder ord" and ?m = "Routers h"
  from n have nn: "\<forall>k\<in>set ?ks. fmlookup ?m k \<noteq> Some None" by (simp add: noNilRouter_def)
  from scan_Inr [OF nn, of eps h fmempty fmempty] obtain h1 td tdm where
    scan: "rangeMapP ?ks ?m (markRouter eps) (h, fmempty, fmempty) = Inr (h1, td, tdm)"
    by blast
  from f scan have vk: "visits ?ks ?m" and vd: "visits (deleteOrder ord) td"
    and vm: "visits (middlewareOrder ord) tdm"
    by (simp_all add: fitsFilter_def)
  note mem = visits_mem [OF vk]
  let ?h2 = "deleteMarked (deleteOrder ord) td h1"
  let ?h3 = "deleteMiddlewares (middlewareOrder ord) tdm ?h2"
  have res: "filterEntryPoints eps ord \<lparr>HTTP = Some h\<rparr> = Inr \<lparr>HTTP = Some ?h3\<rparr>"
    using scan by (simp add: filterEntryPoints_def)
  from scan_routers [OF scan] have
    s1: "Services h1 = Services h" and m1: "Middlewares h1 = Middlewares h" and
    r1: "\<And>k. fmlookup (Routers h1) k =
            (if k \<in> set ?ks \<and> fmlookup ?m k \<noteq> None
             then map_option (map_option (\<lambda>r. r\<lparr>EntryPoints := recognized eps r\<rparr>)) (fmlookup ?m k)
             else fmlookup ?m k)"
    by blast+
  have td: "\<And>k. fmlookup td k =
           (if \<exists>r. fmlookup ?m k = Some (Some r) \<and> recognized eps r = []
            then map_option Service (the (fmlookup ?m k)) else None)"
    using scan_toDelete [OF scan] mem by auto
  have td_some: "\<And>k r. fmlookup ?m k = Some (Some r) \<Longrightarrow>
      fmlookup td k = (if recognized eps r = [] then Some (Service r) else None)"
    unfolding td by simp
  have td_none: "\<And>k. fmlookup ?m k = None \<Longrightarrow> fmlookup td k = None"
    unfolding td by simp
  have tdm: "\<And>x. fmlookup tdm x =
           (if \<exists>k r. fmlookup ?m k = Some (Some r) \<and> recognized eps r \<noteq> [] \<and>
                 x \<in> set (Router.Middlewares r)
            then Some False
            else if \<exists>k r. fmlookup ?m k = Some (Some r) \<and> x \<in> set (Router.Middlewares r)
                 then Some True else None)"
  proof -
    fix x
    have a: "(\<exists>k\<in>set ?ks. \<exists>r. fmlookup ?m k = Some (Some r) \<and> recognized eps r \<noteq> [] \<and>
                 x \<in> set (Router.Middlewares r))
        \<longleftrightarrow> (\<exists>k r. fmlookup ?m k = Some (Some r) \<and> recognized eps r \<noteq> [] \<and>
                 x \<in> set (Router.Middlewares r))"
      using mem by auto
    have b: "(\<exists>k\<in>set ?ks. \<exists>r. fmlookup ?m k = Some (Some r) \<and> x \<in> set (Router.Middlewares r))
        \<longleftrightarrow> (\<exists>k r. fmlookup ?m k = Some (Some r) \<and> x \<in> set (Router.Middlewares r))"
      using mem by auto
    show "fmlookup tdm x =
           (if \<exists>k r. fmlookup ?m k = Some (Some r) \<and> recognized eps r \<noteq> [] \<and>
                 x \<in> set (Router.Middlewares r)
            then Some False
            else if \<exists>k r. fmlookup ?m k = Some (Some r) \<and> x \<in> set (Router.Middlewares r)
                 then Some True else None)"
      using scan_marked [OF scan, of x] unfolding a b by (simp only: fmempty_lookup option.simps)
  qed
  from deleteMarked_lookup [of "deleteOrder ord" td h1] have
    m2: "Middlewares ?h2 = Middlewares h1" and
    r2: "\<And>k. fmlookup (Routers ?h2) k =
      (if k \<in> set (deleteOrder ord) \<and> fmlookup td k \<noteq> None then None else fmlookup (Routers h1) k)" and
    s2: "\<And>s. fmlookup (Services ?h2) s =
      (if \<exists>k\<in>set (deleteOrder ord). fmlookup td k = Some s then None else fmlookup (Services h1) s)"
    by blast+
  from deleteMiddlewares_lookup [of "middlewareOrder ord" tdm ?h2] have
    r3: "Routers ?h3 = Routers ?h2" and s3: "Services ?h3 = Services ?h2" and
    m3: "\<And>x. fmlookup (Middlewares ?h3) x =
      (if x \<in> set (middlewareOrder ord) \<and> fmlookup tdm x = Some True then None
       else fmlookup (Middlewares ?h2) x)"
    by blast+
  have R: "\<forall>k. fmlookup (Routers ?h3) k =
       (case fmlookup (Routers h) k of
          Some (Some r) \<Rightarrow>
            if recognized eps r = [] then None
            else Some (Some (r\<lparr>EntryPoints := recognized eps r\<rparr>))
        | _ \<Rightarrow> None)"
  proof
    fix k
    show "fmlookup (Routers ?h3) k =
       (case fmlookup (Routers h) k of
          Some (Some r) \<Rightarrow>
            if recognized eps r = [] then None
            else Some (Some (r\<lparr>EntryPoints := recognized eps r\<rparr>))
        | _ \<Rightarrow> None)"
    proof (cases "fmlookup (Routers h) k")
      case None
      then show ?thesis unfolding r3 r2 r1 by simp
    next
      case (Some v)
      with n obtain r where v: "v = Some r" by (cases v) (auto simp: noNilRouter_def)
      show ?thesis
        unfolding r3 r2 r1 using Some v visits_mem [OF vd, of k] mem [of k] td_some [of k r]
        by auto
    qed
  qed
  have S: "\<forall>s. fmlookup (Services ?h3) s =
       (if \<exists>k r. fmlookup (Routers h) k = Some (Some r) \<and> recognized eps r = [] \<and> Service r = s
        then None else fmlookup (Services h) s)"
  proof
    fix s
    have "(\<exists>k\<in>set (deleteOrder ord). fmlookup td k = Some s) \<longleftrightarrow> (\<exists>k. fmlookup td k = Some s)"
      using visits_mem [OF vd] by auto
    also have "\<dots> \<longleftrightarrow> (\<exists>k r. fmlookup (Routers h) k = Some (Some r) \<and> recognized eps r = [] \<and> Service r = s)"
    proof
      assume "\<exists>k. fmlookup td k = Some s"
      then obtain k where k: "fmlookup td k = Some s" ..
      show "\<exists>k r. fmlookup (Routers h) k = Some (Some r) \<and> recognized eps r = [] \<and> Service r = s"
      proof (cases "fmlookup (Routers h) k")
        case None
        with k td_none show ?thesis by simp
      next
        case (Some v)
        with n obtain r where v: "v = Some r" by (cases v) (auto simp: noNilRouter_def)
        from td_some [of k r] Some v k have "recognized eps r = [] \<and> Service r = s"
          by (simp split: if_splits)
        with Some v show ?thesis by blast
      qed
    next
      assume "\<exists>k r. fmlookup (Routers h) k = Some (Some r) \<and> recognized eps r = [] \<and> Service r = s"
      then obtain k r where "fmlookup (Routers h) k = Some (Some r)" "recognized eps r = []" "Service r = s"
        by blast
      with td_some [of k r] have "fmlookup td k = Some s" by simp
      then show "\<exists>k. fmlookup td k = Some s" ..
    qed
    finally show "fmlookup (Services ?h3) s =
       (if \<exists>k r. fmlookup (Routers h) k = Some (Some r) \<and> recognized eps r = [] \<and> Service r = s
        then None else fmlookup (Services h) s)"
      unfolding s3 s2 s1 by simp
  qed
  have M: "\<forall>x. fmlookup (Middlewares ?h3) x =
       (if (\<exists>k r. fmlookup (Routers h) k = Some (Some r) \<and> x \<in> set (Router.Middlewares r)) \<and>
           \<not> (\<exists>k r. fmlookup (Routers h) k = Some (Some r) \<and> recognized eps r \<noteq> [] \<and>
                  x \<in> set (Router.Middlewares r))
        then None else fmlookup (Middlewares h) x)"
  proof
    fix x
    have "x \<in> set (middlewareOrder ord) \<and> fmlookup tdm x = Some True \<longleftrightarrow> fmlookup tdm x = Some True"
      using visits_mem [OF vm, of x] by auto
    also have "\<dots> \<longleftrightarrow> (\<exists>k r. fmlookup (Routers h) k = Some (Some r) \<and> x \<in> set (Router.Middlewares r)) \<and>
           \<not> (\<exists>k r. fmlookup (Routers h) k = Some (Some r) \<and> recognized eps r \<noteq> [] \<and>
                  x \<in> set (Router.Middlewares r))"
      unfolding tdm by simp
    finally show "fmlookup (Middlewares ?h3) x =
       (if (\<exists>k r. fmlookup (Routers h) k = Some (Some r) \<and> x \<in> set (Router.Middlewares r)) \<and>
           \<not> (\<exists>k r. fmlookup (Routers h) k = Some (Some r) \<and> recognized eps r \<noteq> [] \<and>
                  x \<in> set (Router.Middlewares r))
        then None else fmlookup (Middlewares h) x)"
      unfolding m3 m2 m1 by simp
  qed
  from res R S M show ?thesis by blast
qed

lemma example_noNil: "noNilRouter exampleFragment"
  by (simp add: noNilRouter_def exampleFragment_def)

lemma example_fits: "fitsFilter (fmupd ''web'' True fmempty) exampleOrder exampleFragment"
  by (auto simp add: fitsFilter_def exampleFragment_def exampleOrder_def markRouter_Some recognized_def
      markSeen_def markKept_def visits_def)


text \<open>
  C1. On a fragment with no nil router, whatever the orders of the visits, every router
  whose entry points include a recognized one keeps its name and has its list of entry
  points replaced by the recognized ones among them, in their order; every router with no
  recognized entry point is removed, and so is the service it names. No router is added,
  and a service named by no removed router stays.
\<close>

theorem filterEntryPoints_routers:
  fixes h :: "('s, 'm) HTTPConfiguration"
  assumes "noNilRouter h" and "fitsFilter eps ord h"
  shows "\<exists>h'. filterEntryPoints eps ord \<lparr>HTTP = Some h\<rparr> = Inr \<lparr>HTTP = Some h'\<rparr> \<and>
    (\<forall>k r. fmlookup (Routers h) k = Some (Some r) \<longrightarrow>
       (if filter (\<lambda>e. e \<in> fmdom' eps) (EntryPoints r) = []
        then fmlookup (Routers h') k = None \<and> fmlookup (Services h') (Service r) = None
        else fmlookup (Routers h') k =
               Some (Some (r\<lparr>EntryPoints := filter (\<lambda>e. e \<in> fmdom' eps) (EntryPoints r)\<rparr>)))) \<and>
    (\<forall>k. fmlookup (Routers h) k = None \<longrightarrow> fmlookup (Routers h') k = None) \<and>
    (\<forall>s. (\<forall>k r. fmlookup (Routers h) k = Some (Some r) \<and> Service r = s \<longrightarrow>
              filter (\<lambda>e. e \<in> fmdom' eps) (EntryPoints r) \<noteq> []) \<longrightarrow>
         fmlookup (Services h') s = fmlookup (Services h) s)"
proof -
  have rec: "\<And>r. recognized eps r = filter (\<lambda>e. e \<in> fmdom' eps) (EntryPoints r)"
    by (simp add: recognized_def fmlookup_dom'_iff)
  from filterEntryPoints_result [OF assms] obtain h' where
    res: "filterEntryPoints eps ord \<lparr>HTTP = Some h\<rparr> = Inr \<lparr>HTTP = Some h'\<rparr>" and
    R: "\<And>k. fmlookup (Routers h') k =
       (case fmlookup (Routers h) k of
          Some (Some r) \<Rightarrow>
            if recognized eps r = [] then None
            else Some (Some (r\<lparr>EntryPoints := recognized eps r\<rparr>))
        | _ \<Rightarrow> None)" and
    S: "\<And>s. fmlookup (Services h') s =
       (if \<exists>k r. fmlookup (Routers h) k = Some (Some r) \<and> recognized eps r = [] \<and> Service r = s
        then None else fmlookup (Services h) s)"
    by blast
  have 1: "\<forall>k r. fmlookup (Routers h) k = Some (Some r) \<longrightarrow>
       (if filter (\<lambda>e. e \<in> fmdom' eps) (EntryPoints r) = []
        then fmlookup (Routers h') k = None \<and> fmlookup (Services h') (Service r) = None
        else fmlookup (Routers h') k =
               Some (Some (r\<lparr>EntryPoints := filter (\<lambda>e. e \<in> fmdom' eps) (EntryPoints r)\<rparr>)))"
  proof (intro allI impI)
    fix k r assume kr: "fmlookup (Routers h) k = Some (Some r)"
    show "if filter (\<lambda>e. e \<in> fmdom' eps) (EntryPoints r) = []
        then fmlookup (Routers h') k = None \<and> fmlookup (Services h') (Service r) = None
        else fmlookup (Routers h') k =
               Some (Some (r\<lparr>EntryPoints := filter (\<lambda>e. e \<in> fmdom' eps) (EntryPoints r)\<rparr>))"
    proof (cases "recognized eps r = []")
      case True
      with kr have "\<exists>k' r'. fmlookup (Routers h) k' = Some (Some r') \<and> recognized eps r' = [] \<and>
          Service r' = Service r" by blast
      then have "fmlookup (Services h') (Service r) = None" unfolding S by simp
      moreover have "fmlookup (Routers h') k = None" unfolding R using kr True by simp
      ultimately show ?thesis using True unfolding rec by simp
    next
      case False
      have "fmlookup (Routers h') k = Some (Some (r\<lparr>EntryPoints := recognized eps r\<rparr>))"
        unfolding R using kr False by simp
      with False show ?thesis unfolding rec by simp
    qed
  qed
  have 2: "\<forall>k. fmlookup (Routers h) k = None \<longrightarrow> fmlookup (Routers h') k = None"
    unfolding R by simp
  have 3: "\<forall>s. (\<forall>k r. fmlookup (Routers h) k = Some (Some r) \<and> Service r = s \<longrightarrow>
              filter (\<lambda>e. e \<in> fmdom' eps) (EntryPoints r) \<noteq> []) \<longrightarrow>
         fmlookup (Services h') s = fmlookup (Services h) s"
    unfolding S rec [symmetric] by auto
  from res 1 2 3 show ?thesis by blast
qed


theorem filterEntryPoints_routers_witness:
  "\<exists>h'. filterEntryPoints (fmupd ''web'' True fmempty) exampleOrder \<lparr>HTTP = Some exampleFragment\<rparr>
           = Inr \<lparr>HTTP = Some h'\<rparr> \<and>
         fmlookup (Routers h') ''R1'' =
           Some (Some \<lparr>EntryPoints = [''web''], Middlewares = [''auth'', ''shared''],
                       Service = ''s1'', Rule = ''Host(`a`)''\<rparr>) \<and>
         fmlookup (Routers h') ''R2'' = None \<and>
         fmlookup (Services h') ''s2'' = None \<and>
         fmlookup (Services h') ''s1'' = Some ''http://10.0.0.1''"
proof -
  from filterEntryPoints_routers [OF example_noNil example_fits] obtain h' where
    res: "filterEntryPoints (fmupd ''web'' True fmempty) exampleOrder \<lparr>HTTP = Some exampleFragment\<rparr>
           = Inr \<lparr>HTTP = Some h'\<rparr>" and
    R: "\<forall>k r. fmlookup (Routers exampleFragment) k = Some (Some r) \<longrightarrow>
       (if filter (\<lambda>e. e \<in> fmdom' (fmupd ''web'' True fmempty)) (EntryPoints r) = []
        then fmlookup (Routers h') k = None \<and> fmlookup (Services h') (Service r) = None
        else fmlookup (Routers h') k =
               Some (Some (r\<lparr>EntryPoints := filter (\<lambda>e. e \<in> fmdom' (fmupd ''web'' True fmempty)) (EntryPoints r)\<rparr>)))" and
    S: "\<forall>s. (\<forall>k r. fmlookup (Routers exampleFragment) k = Some (Some r) \<and> Service r = s \<longrightarrow>
              filter (\<lambda>e. e \<in> fmdom' (fmupd ''web'' True fmempty)) (EntryPoints r) \<noteq> []) \<longrightarrow>
         fmlookup (Services h') s = fmlookup (Services exampleFragment) s"
    by blast
  from R [rule_format, of "''R1''"] have 1: "fmlookup (Routers h') ''R1'' =
           Some (Some \<lparr>EntryPoints = [''web''], Middlewares = [''auth'', ''shared''],
                       Service = ''s1'', Rule = ''Host(`a`)''\<rparr>)"
    by (simp add: exampleFragment_def)
  from R [rule_format, of "''R2''"] have 2: "fmlookup (Routers h') ''R2'' = None \<and> fmlookup (Services h') ''s2'' = None"
    by (simp add: exampleFragment_def)
  have p: "\<forall>k r. fmlookup (Routers exampleFragment) k = Some (Some r) \<and> Service r = ''s1'' \<longrightarrow>
              filter (\<lambda>e. e \<in> fmdom' (fmupd ''web'' True fmempty)) (EntryPoints r) \<noteq> []"
    by (auto simp add: exampleFragment_def split: if_splits)
  from S [THEN spec, of "''s1''", THEN mp, OF p]
  have 3: "fmlookup (Services h') ''s1'' = Some ''http://10.0.0.1''"
    by (simp add: exampleFragment_def)
  from res 1 2 3 show ?thesis by blast
qed

text \<open>
  C2. On a fragment with no nil router, whatever the orders of the visits, a middleware
  referenced by a router that is still present after the filtering is kept as it was, also
  when a removed router references it too; a middleware referenced by routers that are all
  removed is removed; a middleware that no router references is kept.
\<close>

theorem filterEntryPoints_middlewares:
  fixes h :: "('s, 'm) HTTPConfiguration"
  assumes "noNilRouter h" and "fitsFilter eps ord h"
  shows "\<exists>h'. filterEntryPoints eps ord \<lparr>HTTP = Some h\<rparr> = Inr \<lparr>HTTP = Some h'\<rparr> \<and>
    (\<forall>x k r. fmlookup (Routers h) k = Some (Some r) \<and> x \<in> set (Router.Middlewares r) \<and>
         fmlookup (Routers h') k \<noteq> None \<longrightarrow>
       fmlookup (Middlewares h') x = fmlookup (Middlewares h) x) \<and>
    (\<forall>x. (\<exists>k r. fmlookup (Routers h) k = Some (Some r) \<and> x \<in> set (Router.Middlewares r)) \<and>
         (\<forall>k r. fmlookup (Routers h) k = Some (Some r) \<and> x \<in> set (Router.Middlewares r) \<longrightarrow>
            fmlookup (Routers h') k = None) \<longrightarrow>
       fmlookup (Middlewares h') x = None) \<and>
    (\<forall>x. (\<forall>k r. fmlookup (Routers h) k = Some (Some r) \<longrightarrow> x \<notin> set (Router.Middlewares r)) \<longrightarrow>
       fmlookup (Middlewares h') x = fmlookup (Middlewares h) x)"
proof -
  from filterEntryPoints_result [OF assms] obtain h' where
    res: "filterEntryPoints eps ord \<lparr>HTTP = Some h\<rparr> = Inr \<lparr>HTTP = Some h'\<rparr>" and
    R: "\<And>k. fmlookup (Routers h') k =
       (case fmlookup (Routers h) k of
          Some (Some r) \<Rightarrow>
            if recognized eps r = [] then None
            else Some (Some (r\<lparr>EntryPoints := recognized eps r\<rparr>))
        | _ \<Rightarrow> None)" and
    M: "\<And>x. fmlookup (Middlewares h') x =
       (if (\<exists>k r. fmlookup (Routers h) k = Some (Some r) \<and> x \<in> set (Router.Middlewares r)) \<and>
           \<not> (\<exists>k r. fmlookup (Routers h) k = Some (Some r) \<and> recognized eps r \<noteq> [] \<and>
                  x \<in> set (Router.Middlewares r))
        then None else fmlookup (Middlewares h) x)"
    by blast
  have sv: "\<And>k r. fmlookup (Routers h) k = Some (Some r) \<Longrightarrow>
      fmlookup (Routers h') k = None \<longleftrightarrow> recognized eps r = []"
    unfolding R by simp
  have 1: "\<forall>x k r. fmlookup (Routers h) k = Some (Some r) \<and> x \<in> set (Router.Middlewares r) \<and>
         fmlookup (Routers h') k \<noteq> None \<longrightarrow>
       fmlookup (Middlewares h') x = fmlookup (Middlewares h) x"
  proof (intro allI impI, elim conjE)
    fix x k r
    assume a: "fmlookup (Routers h) k = Some (Some r)" "x \<in> set (Router.Middlewares r)"
      "fmlookup (Routers h') k \<noteq> None"
    from a(3) sv [OF a(1)] have "recognized eps r \<noteq> []" by simp
    with a(1,2) have "\<exists>k r. fmlookup (Routers h) k = Some (Some r) \<and> recognized eps r \<noteq> [] \<and>
                  x \<in> set (Router.Middlewares r)" by blast
    then show "fmlookup (Middlewares h') x = fmlookup (Middlewares h) x" unfolding M by simp
  qed
  have 2: "\<forall>x. (\<exists>k r. fmlookup (Routers h) k = Some (Some r) \<and> x \<in> set (Router.Middlewares r)) \<and>
         (\<forall>k r. fmlookup (Routers h) k = Some (Some r) \<and> x \<in> set (Router.Middlewares r) \<longrightarrow>
            fmlookup (Routers h') k = None) \<longrightarrow>
       fmlookup (Middlewares h') x = None"
  proof (intro allI impI, elim conjE)
    fix x
    assume a: "\<exists>k r. fmlookup (Routers h) k = Some (Some r) \<and> x \<in> set (Router.Middlewares r)"
      and b: "\<forall>k r. fmlookup (Routers h) k = Some (Some r) \<and> x \<in> set (Router.Middlewares r) \<longrightarrow>
            fmlookup (Routers h') k = None"
    have "\<not> (\<exists>k r. fmlookup (Routers h) k = Some (Some r) \<and> recognized eps r \<noteq> [] \<and>
                  x \<in> set (Router.Middlewares r))"
    proof
      assume "\<exists>k r. fmlookup (Routers h) k = Some (Some r) \<and> recognized eps r \<noteq> [] \<and>
                  x \<in> set (Router.Middlewares r)"
      then obtain k r where c: "fmlookup (Routers h) k = Some (Some r)" "recognized eps r \<noteq> []"
        "x \<in> set (Router.Middlewares r)" by blast
      from b c(1,3) have "fmlookup (Routers h') k = None" by blast
      with sv [OF c(1)] c(2) show False by simp
    qed
    with a show "fmlookup (Middlewares h') x = None" unfolding M by simp
  qed
  have 3: "\<forall>x. (\<forall>k r. fmlookup (Routers h) k = Some (Some r) \<longrightarrow> x \<notin> set (Router.Middlewares r)) \<longrightarrow>
       fmlookup (Middlewares h') x = fmlookup (Middlewares h) x"
    unfolding M by auto
  from res 1 2 3 show ?thesis by blast
qed


theorem filterEntryPoints_middlewares_witness:
  "\<exists>h'. filterEntryPoints (fmupd ''web'' True fmempty) exampleOrder \<lparr>HTTP = Some exampleFragment\<rparr>
           = Inr \<lparr>HTTP = Some h'\<rparr> \<and>
         fmlookup (Middlewares h') ''shared'' = Some ''gzip'' \<and>
         fmlookup (Middlewares h') ''auth'' = Some ''basic'' \<and>
         fmlookup (Middlewares h') ''only2'' = None"
proof -
  from filterEntryPoints_middlewares [OF example_noNil example_fits] obtain h' where
    res: "filterEntryPoints (fmupd ''web'' True fmempty) exampleOrder \<lparr>HTTP = Some exampleFragment\<rparr>
           = Inr \<lparr>HTTP = Some h'\<rparr>" and
    K: "\<forall>x k r. fmlookup (Routers exampleFragment) k = Some (Some r) \<and> x \<in> set (Router.Middlewares r) \<and>
         fmlookup (Routers h') k \<noteq> None \<longrightarrow>
       fmlookup (Middlewares h') x = fmlookup (Middlewares exampleFragment) x" and
    D: "\<forall>x. (\<exists>k r. fmlookup (Routers exampleFragment) k = Some (Some r) \<and> x \<in> set (Router.Middlewares r)) \<and>
         (\<forall>k r. fmlookup (Routers exampleFragment) k = Some (Some r) \<and> x \<in> set (Router.Middlewares r) \<longrightarrow>
            fmlookup (Routers h') k = None) \<longrightarrow>
       fmlookup (Middlewares h') x = None"
    by blast
  from filterEntryPoints_result [OF example_noNil example_fits] res
  have R1: "fmlookup (Routers h') ''R1'' \<noteq> None" and R2: "fmlookup (Routers h') ''R2'' = None"
    by (auto simp add: exampleFragment_def recognized_def)
  have r1: "fmlookup (Routers exampleFragment) ''R1'' =
      Some (Some \<lparr>EntryPoints = [''web'', ''websecure''], Middlewares = [''auth'', ''shared''],
                            Service = ''s1'', Rule = ''Host(`a`)''\<rparr>)"
    by (simp add: exampleFragment_def)
  from K [rule_format, of "''R1''" _ "''shared''"] r1 R1
  have 1: "fmlookup (Middlewares h') ''shared'' = Some ''gzip''"
    by (simp add: exampleFragment_def)
  from K [rule_format, of "''R1''" _ "''auth''"] r1 R1
  have 2: "fmlookup (Middlewares h') ''auth'' = Some ''basic''"
    by (simp add: exampleFragment_def)
  have p: "(\<exists>k r. fmlookup (Routers exampleFragment) k = Some (Some r) \<and> ''only2'' \<in> set (Router.Middlewares r)) \<and>
         (\<forall>k r. fmlookup (Routers exampleFragment) k = Some (Some r) \<and> ''only2'' \<in> set (Router.Middlewares r) \<longrightarrow>
            fmlookup (Routers h') k = None)"
    using R2 by (auto simp add: exampleFragment_def split: if_splits)
  from D [THEN spec, of "''only2''", THEN mp, OF p]
  have 3: "fmlookup (Middlewares h') ''only2'' = None" .
  from res 1 2 3 show ?thesis by blast
qed


section \<open>mergeConfig: the first fragment wins\<close>

lemma addNew_lookup:
  "fmlookup (addNew ks src dst) x =
     (case fmlookup dst x of
        Some v \<Rightarrow> Some v
      | None \<Rightarrow> if x \<in> set ks then fmlookup src x else None)"
  unfolding addNew_def
proof (induction ks arbitrary: dst)
  case Nil
  show ?case by (simp split: option.splits)
next
  case (Cons a ks)
  show ?case
  proof (cases "fmlookup src a")
    case None
    with Cons [of dst] show ?thesis by (auto split: option.splits)
  next
    case (Some v)
    with Cons [of dst] Cons [of "fmupd a v dst"] show ?thesis by (auto split: option.splits)
  qed
qed

lemma addNew_visits:
  assumes "visits ks src"
  shows "fmlookup (addNew ks src dst) x =
     (case fmlookup dst x of Some v \<Rightarrow> Some v | None \<Rightarrow> fmlookup src x)"
  using visits_mem [OF assms, of x] by (auto simp: addNew_lookup split: option.splits)

lemma firstDefined_Cons:
  "firstDefined (a # xs) = (case a of Some v \<Rightarrow> Some v | None \<Rightarrow> firstDefined xs)"
  by (cases a) simp_all

lemma mergeOne_lookup:
  assumes "fitsKeys ord h"
  shows "\<exists>new'. mergeOne ord \<lparr>HTTP = Some h\<rparr> new = Inr new' \<and>
     (\<forall>x. fmlookup (Routers new') x =
        (case fmlookup (Routers new) x of Some v \<Rightarrow> Some v | None \<Rightarrow> fmlookup (Routers h) x)) \<and>
     (\<forall>x. fmlookup (Services new') x =
        (case fmlookup (Services new) x of Some v \<Rightarrow> Some v | None \<Rightarrow> fmlookup (Services h) x)) \<and>
     (\<forall>x. fmlookup (Middlewares new') x =
        (case fmlookup (Middlewares new) x of Some v \<Rightarrow> Some v | None \<Rightarrow> fmlookup (Middlewares h) x))"
  using assms by (simp add: mergeOne_def fitsKeys_def addNew_visits)

text \<open>The loop over the nodes, from any accumulated configuration.\<close>

lemma merge_loop:
  assumes "map (fmlookup configs) nodes = map (\<lambda>h. Some \<lparr>HTTP = Some h\<rparr>) hs"
    and "list_all2 (\<lambda>n h. fitsKeys (keys n) h) nodes hs"
  shows "\<exists>new. rangeMapP nodes configs (\<lambda>node c new. mergeOne (keys node) c new) acc = Inr new \<and>
     (\<forall>x. fmlookup (Routers new) x =
        (case fmlookup (Routers acc) x of Some v \<Rightarrow> Some v
         | None \<Rightarrow> firstDefined (map (\<lambda>h. fmlookup (Routers h) x) hs))) \<and>
     (\<forall>x. fmlookup (Services new) x =
        (case fmlookup (Services acc) x of Some v \<Rightarrow> Some v
         | None \<Rightarrow> firstDefined (map (\<lambda>h. fmlookup (Services h) x) hs))) \<and>
     (\<forall>x. fmlookup (Middlewares new) x =
        (case fmlookup (Middlewares acc) x of Some v \<Rightarrow> Some v
         | None \<Rightarrow> firstDefined (map (\<lambda>h. fmlookup (Middlewares h) x) hs)))"
  using assms
proof (induction nodes arbitrary: hs acc)
  case Nil
  then show ?case by (simp split: option.splits)
next
  case (Cons n nodes)
  from Cons.prems(1) obtain h hs' where hs: "hs = h # hs'"
    and c: "fmlookup configs n = Some \<lparr>HTTP = Some h\<rparr>"
    and rest: "map (fmlookup configs) nodes = map (\<lambda>h. Some \<lparr>HTTP = Some h\<rparr>) hs'"
    by (cases hs) auto
  from Cons.prems(2) hs have fit: "fitsKeys (keys n) h"
    and fits: "list_all2 (\<lambda>n h. fitsKeys (keys n) h) nodes hs'" by simp_all
  from mergeOne_lookup [OF fit, of acc] obtain acc' where
    m: "mergeOne (keys n) \<lparr>HTTP = Some h\<rparr> acc = Inr acc'" and
    r: "\<And>x. fmlookup (Routers acc') x =
        (case fmlookup (Routers acc) x of Some v \<Rightarrow> Some v | None \<Rightarrow> fmlookup (Routers h) x)" and
    s: "\<And>x. fmlookup (Services acc') x =
        (case fmlookup (Services acc) x of Some v \<Rightarrow> Some v | None \<Rightarrow> fmlookup (Services h) x)" and
    w: "\<And>x. fmlookup (Middlewares acc') x =
        (case fmlookup (Middlewares acc) x of Some v \<Rightarrow> Some v | None \<Rightarrow> fmlookup (Middlewares h) x)"
    by blast
  from Cons.IH [OF rest fits, of acc'] obtain new where
    l: "rangeMapP nodes configs (\<lambda>node c new. mergeOne (keys node) c new) acc' = Inr new" and
    r': "\<And>x. fmlookup (Routers new) x =
        (case fmlookup (Routers acc') x of Some v \<Rightarrow> Some v
         | None \<Rightarrow> firstDefined (map (\<lambda>h. fmlookup (Routers h) x) hs'))" and
    s': "\<And>x. fmlookup (Services new) x =
        (case fmlookup (Services acc') x of Some v \<Rightarrow> Some v
         | None \<Rightarrow> firstDefined (map (\<lambda>h. fmlookup (Services h) x) hs'))" and
    w': "\<And>x. fmlookup (Middlewares new) x =
        (case fmlookup (Middlewares acc') x of Some v \<Rightarrow> Some v
         | None \<Rightarrow> firstDefined (map (\<lambda>h. fmlookup (Middlewares h) x) hs'))"
    by blast
  have "rangeMapP (n # nodes) configs (\<lambda>node c new. mergeOne (keys node) c new) acc = Inr new"
    using c m l by simp
  moreover have "\<forall>x. fmlookup (Routers new) x =
        (case fmlookup (Routers acc) x of Some v \<Rightarrow> Some v
         | None \<Rightarrow> firstDefined (map (\<lambda>h. fmlookup (Routers h) x) hs))"
    unfolding r' r hs by (simp add: firstDefined_Cons split: option.splits)
  moreover have "\<forall>x. fmlookup (Services new) x =
        (case fmlookup (Services acc) x of Some v \<Rightarrow> Some v
         | None \<Rightarrow> firstDefined (map (\<lambda>h. fmlookup (Services h) x) hs))"
    unfolding s' s hs by (simp add: firstDefined_Cons split: option.splits)
  moreover have "\<forall>x. fmlookup (Middlewares new) x =
        (case fmlookup (Middlewares acc) x of Some v \<Rightarrow> Some v
         | None \<Rightarrow> firstDefined (map (\<lambda>h. fmlookup (Middlewares h) x) hs))"
    unfolding w' w hs by (simp add: firstDefined_Cons split: option.splits)
  ultimately show ?case by blast
qed

lemma mergeConfig_result:
  assumes "map (fmlookup configs) nodes = map (\<lambda>h. Some \<lparr>HTTP = Some h\<rparr>) hs"
    and "list_all2 (\<lambda>n h. fitsKeys (keys n) h) nodes hs"
  shows "\<exists>new. mergeConfig nodes keys configs = Inr \<lparr>HTTP = Some new\<rparr> \<and>
     (\<forall>x. fmlookup (Routers new) x = firstDefined (map (\<lambda>h. fmlookup (Routers h) x) hs)) \<and>
     (\<forall>x. fmlookup (Services new) x = firstDefined (map (\<lambda>h. fmlookup (Services h) x) hs)) \<and>
     (\<forall>x. fmlookup (Middlewares new) x = firstDefined (map (\<lambda>h. fmlookup (Middlewares h) x) hs))"
proof -
  from merge_loop [OF assms, of "\<lparr>Routers = fmempty, Services = fmempty, Middlewares = fmempty\<rparr>"]
  obtain new where
    l: "rangeMapP nodes configs (\<lambda>node c new. mergeOne (keys node) c new)
          \<lparr>Routers = fmempty, Services = fmempty, Middlewares = fmempty\<rparr> = Inr new" and
    r: "\<forall>x. fmlookup (Routers new) x = firstDefined (map (\<lambda>h. fmlookup (Routers h) x) hs)" and
    s: "\<forall>x. fmlookup (Services new) x = firstDefined (map (\<lambda>h. fmlookup (Services h) x) hs)" and
    w: "\<forall>x. fmlookup (Middlewares new) x = firstDefined (map (\<lambda>h. fmlookup (Middlewares h) x) hs)"
    by auto
  from l have "mergeConfig nodes keys configs = Inr \<lparr>HTTP = Some new\<rparr>"
    by (simp add: mergeConfig_def)
  with r s w show ?thesis by blast
qed

lemma firstDefined_Some_iff:
  "firstDefined xs = Some v \<longleftrightarrow>
     (\<exists>i<length xs. xs ! i = Some v \<and> (\<forall>j<i. xs ! j = None))"
proof (induction xs rule: firstDefined.induct)
  case 1
  show ?case by simp
next
  case (2 xs)
  show ?case
  proof
    assume "firstDefined (None # xs) = Some v"
    with 2 obtain i where i: "i < length xs" "xs ! i = Some v" "\<forall>j<i. xs ! j = None" by auto
    have "\<forall>j<Suc i. (None # xs) ! j = None"
    proof (intro allI impI)
      fix j assume "j < Suc i" then show "(None # xs) ! j = None" using i(3) by (cases j) auto
    qed
    with i(1,2) show "\<exists>i<length (None # xs). (None # xs) ! i = Some v \<and> (\<forall>j<i. (None # xs) ! j = None)"
      by (intro exI [of _ "Suc i"]) simp
  next
    assume "\<exists>i<length (None # xs). (None # xs) ! i = Some v \<and> (\<forall>j<i. (None # xs) ! j = None)"
    then obtain i where i: "i < length (None # xs)" "(None # xs) ! i = Some v"
      "\<forall>j<i. (None # xs) ! j = None" by blast
    from i(2) obtain i' where i': "i = Suc i'" by (cases i) auto
    have "\<forall>j<i'. xs ! j = None"
    proof (intro allI impI)
      fix j assume "j < i'"
      then have "Suc j < i" using i' by simp
      with i(3) have "(None # xs) ! Suc j = None" by blast
      then show "xs ! j = None" by simp
    qed
    with i i' have "\<exists>i<length xs. xs ! i = Some v \<and> (\<forall>j<i. xs ! j = None)" by auto
    with 2 show "firstDefined (None # xs) = Some v" by simp
  qed
next
  case (3 w xs)
  show ?case
  proof
    assume "firstDefined (Some w # xs) = Some v"
    then have "w = v" by simp
    then show "\<exists>i<length (Some w # xs). (Some w # xs) ! i = Some v \<and> (\<forall>j<i. (Some w # xs) ! j = None)"
      by (intro exI [of _ 0]) simp
  next
    assume "\<exists>i<length (Some w # xs). (Some w # xs) ! i = Some v \<and> (\<forall>j<i. (Some w # xs) ! j = None)"
    then obtain i where i: "(Some w # xs) ! i = Some v" "\<forall>j<i. (Some w # xs) ! j = None" by blast
    have "i = 0"
    proof (rule ccontr)
      assume "i \<noteq> 0"
      then have "0 < i" by simp
      with i(2) have "(Some w # xs) ! 0 = None" by blast
      then show False by simp
    qed
    with i(1) show "firstDefined (Some w # xs) = Some v" by simp
  qed
qed

lemma firstDefined_map_iff:
  "firstDefined (map f hs) = Some v \<longleftrightarrow>
     (\<exists>i<length hs. f (hs ! i) = Some v \<and> (\<forall>j<i. f (hs ! j) = None))"
proof -
  have "(\<exists>i<length (map f hs). map f hs ! i = Some v \<and> (\<forall>j<i. map f hs ! j = None))
      \<longleftrightarrow> (\<exists>i<length hs. f (hs ! i) = Some v \<and> (\<forall>j<i. f (hs ! j) = None))"
  proof (intro iffI; elim exE conjE)
    fix i assume i: "i < length (map f hs)" "map f hs ! i = Some v" "\<forall>j<i. map f hs ! j = None"
    have "\<forall>j<i. f (hs ! j) = None"
    proof (intro allI impI)
      fix j assume j: "j < i"
      with i(3) have "map f hs ! j = None" by blast
      moreover from j i(1) have "j < length hs" by simp
      ultimately show "f (hs ! j) = None" by simp
    qed
    with i(1,2) show "\<exists>i<length hs. f (hs ! i) = Some v \<and> (\<forall>j<i. f (hs ! j) = None)"
      by (intro exI [of _ i]) simp
  next
    fix i assume i: "i < length hs" "f (hs ! i) = Some v" "\<forall>j<i. f (hs ! j) = None"
    have "\<forall>j<i. map f hs ! j = None"
    proof (intro allI impI)
      fix j assume j: "j < i"
      with i(1) have "j < length hs" by simp
      with i(3) j show "map f hs ! j = None" by simp
    qed
    with i(1,2) show "\<exists>i<length (map f hs). map f hs ! i = Some v \<and> (\<forall>j<i. map f hs ! j = None)"
      by (intro exI [of _ i]) simp
  qed
  then show ?thesis unfolding firstDefined_Some_iff .
qed

lemma firstDefined_None_iff: "firstDefined xs = None \<longleftrightarrow> (\<forall>y\<in>set xs. y = None)"
  by (induction xs rule: firstDefined.induct) auto

lemma firstDefined_defined:
  assumes "h \<in> set hs" and "f h \<noteq> None"
  shows "firstDefined (map f hs) \<noteq> None"
proof
  assume "firstDefined (map f hs) = None"
  then have "\<forall>y\<in>set (map f hs). y = None" unfolding firstDefined_None_iff .
  moreover from assms(1) have "f h \<in> set (map f hs)" by simp
  ultimately have "f h = None" by blast
  with assms(2) show False by blast
qed


lemma example_lookups: "map (fmlookup exampleConfigs) [''a'', ''b'']
    = map (\<lambda>h. Some \<lparr>HTTP = Some h\<rparr>) [fragmentA, fragmentB]"
  by (simp add: exampleConfigs_def)

lemma example_fitsKeys: "list_all2 (\<lambda>n h. fitsKeys (exampleKeys n) h) [''a'', ''b''] [fragmentA, fragmentB]"
  by (simp add: exampleKeys_def fitsKeys_def visits_def fragmentA_def fragmentB_def)


text \<open>
  C4. Let \<open>hs\<close> be the fragments in the order in which the loop over \<^verbatim>\<open>configs\<close> visits
  them. \<^verbatim>\<open>mergeConfig\<close> returns a configuration, with no panic and no error, in which a
  router, service or middleware name has the entry \<open>v\<close> exactly when some fragment has the
  entry \<open>v\<close> for the name and no fragment before it in \<open>hs\<close> has an entry for the name.
  The result is the same for every order in which the inner loops visit the maps of a
  fragment: it is a function of the sequence \<open>hs\<close>.
\<close>

theorem mergeConfig_first_writer_wins:
  fixes hs :: "('s, 'm) HTTPConfiguration list"
  assumes "map (fmlookup configs) nodes = map (\<lambda>h. Some \<lparr>HTTP = Some h\<rparr>) hs"
    and "list_all2 (\<lambda>n h. fitsKeys (keys n) h) nodes hs"
    and "list_all2 (\<lambda>n h. fitsKeys (keys' n) h) nodes hs"
  shows "\<exists>new. mergeConfig nodes keys configs = Inr \<lparr>HTTP = Some new\<rparr> \<and>
     mergeConfig nodes keys' configs = Inr \<lparr>HTTP = Some new\<rparr> \<and>
     (\<forall>x v. fmlookup (Routers new) x = Some v \<longleftrightarrow>
        (\<exists>i<length hs. fmlookup (Routers (hs ! i)) x = Some v \<and>
           (\<forall>j<i. fmlookup (Routers (hs ! j)) x = None))) \<and>
     (\<forall>x v. fmlookup (Services new) x = Some v \<longleftrightarrow>
        (\<exists>i<length hs. fmlookup (Services (hs ! i)) x = Some v \<and>
           (\<forall>j<i. fmlookup (Services (hs ! j)) x = None))) \<and>
     (\<forall>x v. fmlookup (Middlewares new) x = Some v \<longleftrightarrow>
        (\<exists>i<length hs. fmlookup (Middlewares (hs ! i)) x = Some v \<and>
           (\<forall>j<i. fmlookup (Middlewares (hs ! j)) x = None)))"
proof -
  from mergeConfig_result [OF assms(1,2)] obtain new where
    m: "mergeConfig nodes keys configs = Inr \<lparr>HTTP = Some new\<rparr>" and
    r: "\<And>x. fmlookup (Routers new) x = firstDefined (map (\<lambda>h. fmlookup (Routers h) x) hs)" and
    s: "\<And>x. fmlookup (Services new) x = firstDefined (map (\<lambda>h. fmlookup (Services h) x) hs)" and
    w: "\<And>x. fmlookup (Middlewares new) x = firstDefined (map (\<lambda>h. fmlookup (Middlewares h) x) hs)"
    by blast
  from mergeConfig_result [OF assms(1,3)] obtain new' where
    m': "mergeConfig nodes keys' configs = Inr \<lparr>HTTP = Some new'\<rparr>" and
    r': "\<And>x. fmlookup (Routers new') x = firstDefined (map (\<lambda>h. fmlookup (Routers h) x) hs)" and
    s': "\<And>x. fmlookup (Services new') x = firstDefined (map (\<lambda>h. fmlookup (Services h) x) hs)" and
    w': "\<And>x. fmlookup (Middlewares new') x = firstDefined (map (\<lambda>h. fmlookup (Middlewares h) x) hs)"
    by blast
  have "Routers new' = Routers new" by (rule fmap_ext) (simp add: r r')
  moreover have "Services new' = Services new" by (rule fmap_ext) (simp add: s s')
  moreover have "Middlewares new' = Middlewares new" by (rule fmap_ext) (simp add: w w')
  ultimately have "new' = new" by simp
  with m' have m'': "mergeConfig nodes keys' configs = Inr \<lparr>HTTP = Some new\<rparr>" by simp
  have R: "\<forall>x v. fmlookup (Routers new) x = Some v \<longleftrightarrow>
        (\<exists>i<length hs. fmlookup (Routers (hs ! i)) x = Some v \<and>
           (\<forall>j<i. fmlookup (Routers (hs ! j)) x = None))"
    unfolding r firstDefined_map_iff by simp
  have S: "\<forall>x v. fmlookup (Services new) x = Some v \<longleftrightarrow>
        (\<exists>i<length hs. fmlookup (Services (hs ! i)) x = Some v \<and>
           (\<forall>j<i. fmlookup (Services (hs ! j)) x = None))"
    unfolding s firstDefined_map_iff by simp
  have W: "\<forall>x v. fmlookup (Middlewares new) x = Some v \<longleftrightarrow>
        (\<exists>i<length hs. fmlookup (Middlewares (hs ! i)) x = Some v \<and>
           (\<forall>j<i. fmlookup (Middlewares (hs ! j)) x = None))"
    unfolding w firstDefined_map_iff by simp
  from m m'' R S W show ?thesis by blast
qed


theorem mergeConfig_first_writer_wins_witness:
  "\<exists>new. mergeConfig [''a'', ''b''] exampleKeys exampleConfigs = Inr \<lparr>HTTP = Some new\<rparr> \<and>
     fmlookup (Services new) ''svc1'' = Some ''http://10.0.0.1'' \<and>
     fmlookup (Middlewares new) ''auth'' = Some ''basic-a'' \<and>
     fmlookup (Routers new) ''rb'' =
       Some (Some \<lparr>EntryPoints = [''web''], Middlewares = [''auth''],
                   Service = ''svc1'', Rule = ''Host(`b`)''\<rparr>)"
proof -
  from mergeConfig_first_writer_wins [OF example_lookups example_fitsKeys example_fitsKeys]
  obtain new where
    m: "mergeConfig [''a'', ''b''] exampleKeys exampleConfigs = Inr \<lparr>HTTP = Some new\<rparr>" and
    r: "\<forall>x v. fmlookup (Routers new) x = Some v \<longleftrightarrow>
        (\<exists>i<length [fragmentA, fragmentB]. fmlookup (Routers ([fragmentA, fragmentB] ! i)) x = Some v \<and>
           (\<forall>j<i. fmlookup (Routers ([fragmentA, fragmentB] ! j)) x = None))" and
    s: "\<forall>x v. fmlookup (Services new) x = Some v \<longleftrightarrow>
        (\<exists>i<length [fragmentA, fragmentB]. fmlookup (Services ([fragmentA, fragmentB] ! i)) x = Some v \<and>
           (\<forall>j<i. fmlookup (Services ([fragmentA, fragmentB] ! j)) x = None))" and
    w: "\<forall>x v. fmlookup (Middlewares new) x = Some v \<longleftrightarrow>
        (\<exists>i<length [fragmentA, fragmentB]. fmlookup (Middlewares ([fragmentA, fragmentB] ! i)) x = Some v \<and>
           (\<forall>j<i. fmlookup (Middlewares ([fragmentA, fragmentB] ! j)) x = None))"
    by blast
  have 1: "fmlookup (Services new) ''svc1'' = Some ''http://10.0.0.1''"
    unfolding s [rule_format] by (intro exI [of _ 0]) (simp add: fragmentA_def)
  have 2: "fmlookup (Middlewares new) ''auth'' = Some ''basic-a''"
    unfolding w [rule_format] by (intro exI [of _ 0]) (simp add: fragmentA_def)
  have 3: "fmlookup (Routers new) ''rb'' =
       Some (Some \<lparr>EntryPoints = [''web''], Middlewares = [''auth''],
                   Service = ''svc1'', Rule = ''Host(`b`)''\<rparr>)"
    unfolding r [rule_format]
    by (intro exI [of _ 1]) (simp add: fragmentA_def fragmentB_def)
  from m 1 2 3 show ?thesis by blast
qed


text \<open>
  C10. When every fragment resolves its names, so does the merged configuration: every
  router in it names a service and middlewares that the merged maps hold.
\<close>

theorem mergeConfig_resolves:
  fixes hs :: "('s, 'm) HTTPConfiguration list"
  assumes "map (fmlookup configs) nodes = map (\<lambda>h. Some \<lparr>HTTP = Some h\<rparr>) hs"
    and "list_all2 (\<lambda>n h. fitsKeys (keys n) h) nodes hs"
    and "\<forall>h\<in>set hs. resolves h"
  shows "\<exists>new. mergeConfig nodes keys configs = Inr \<lparr>HTTP = Some new\<rparr> \<and> resolves new"
proof -
  from mergeConfig_result [OF assms(1,2)] obtain new where
    m: "mergeConfig nodes keys configs = Inr \<lparr>HTTP = Some new\<rparr>" and
    r: "\<And>x. fmlookup (Routers new) x = firstDefined (map (\<lambda>h. fmlookup (Routers h) x) hs)" and
    s: "\<And>x. fmlookup (Services new) x = firstDefined (map (\<lambda>h. fmlookup (Services h) x) hs)" and
    w: "\<And>x. fmlookup (Middlewares new) x = firstDefined (map (\<lambda>h. fmlookup (Middlewares h) x) hs)"
    by blast
  have "resolves new"
    unfolding resolves_def
  proof (intro allI impI)
    fix k rt
    assume "fmlookup (Routers new) k = Some (Some rt)"
    then obtain i where i: "i < length hs" "fmlookup (Routers (hs ! i)) k = Some (Some rt)"
      unfolding r firstDefined_map_iff by blast
    from i(1) have mem: "hs ! i \<in> set hs" by simp
    with assms(3) have "resolves (hs ! i)" by blast
    with i(2) have sv: "fmlookup (Services (hs ! i)) (Service rt) \<noteq> None"
      and mw: "\<forall>m\<in>set (Router.Middlewares rt). fmlookup (Middlewares (hs ! i)) m \<noteq> None"
      unfolding resolves_def by blast+
    have "fmlookup (Services new) (Service rt) \<noteq> None"
      unfolding s using mem sv by (rule firstDefined_defined)
    moreover have "\<forall>m\<in>set (Router.Middlewares rt). fmlookup (Middlewares new) m \<noteq> None"
    proof
      fix m' assume "m' \<in> set (Router.Middlewares rt)"
      with mw have "fmlookup (Middlewares (hs ! i)) m' \<noteq> None" by blast
      with mem show "fmlookup (Middlewares new) m' \<noteq> None"
        unfolding w by (rule firstDefined_defined)
    qed
    ultimately show "fmlookup (Services new) (Service rt) \<noteq> None \<and>
        (\<forall>m\<in>set (Router.Middlewares rt). fmlookup (Middlewares new) m \<noteq> None)" ..
  qed
  with m show ?thesis by blast
qed


lemma example_resolves: "\<forall>h\<in>set [fragmentA, fragmentB]. resolves h"
  by (auto simp add: resolves_def fragmentA_def fragmentB_def split: if_splits)

theorem mergeConfig_resolves_witness:
  "\<exists>new. mergeConfig [''b'', ''a''] exampleKeys exampleConfigs = Inr \<lparr>HTTP = Some new\<rparr> \<and>
     resolves new"
proof -
  have l: "map (fmlookup exampleConfigs) [''b'', ''a'']
      = map (\<lambda>h. Some \<lparr>HTTP = Some h\<rparr>) [fragmentB, fragmentA]"
    by (simp add: exampleConfigs_def)
  have f: "list_all2 (\<lambda>n h. fitsKeys (exampleKeys n) h) [''b'', ''a''] [fragmentB, fragmentA]"
    by (simp add: exampleKeys_def fitsKeys_def visits_def fragmentA_def fragmentB_def)
  have r: "\<forall>h\<in>set [fragmentB, fragmentA]. resolves h"
    using example_resolves by simp
  from mergeConfig_resolves [OF l f r] show ?thesis .
qed


section \<open>The tick: which endpoints contribute\<close>

lemma fetch_body:
  "fetch get unmarshal e =
     (case get (''http://'' @ endpoint e @ '':5000/traefik/config'') of
        None \<Rightarrow> None
      | Some resp \<Rightarrow> (case Body resp of None \<Rightarrow> None | Some body \<Rightarrow> unmarshal body))"
  by (simp add: fetch_def split: option.splits)

lemma fetch_status_independent:
  assumes "\<forall>u. map_option Body (get u) = map_option Body (get' u)"
  shows "fetch get unmarshal e = fetch get' unmarshal e"
proof -
  let ?u = "''http://'' @ endpoint e @ '':5000/traefik/config''"
  from assms have "map_option Body (get ?u) = map_option Body (get' ?u)" by blast
  then show ?thesis
    unfolding fetch_body by (cases "get ?u"; cases "get' ?u") simp_all
qed

lemma loadEndpoint_status_independent:
  assumes "\<forall>u. map_option Body (get u) = map_option Body (get' u)"
  shows "loadEndpoint policy get unmarshal = loadEndpoint policy get' unmarshal"
  by (intro ext) (simp add: loadEndpoint_def fetch_status_independent [OF assms])

lemma tickWith_status_independent:
  assumes "\<forall>u. map_option Body (get u) = map_option Body (get' u)"
  shows "tickWith policy eps get unmarshal ord = tickWith policy eps get' unmarshal ord"
  by (simp add: tickWith_def loadEndpoint_status_independent [OF assms])

text \<open>The loop over the endpoints, when the policy panics on no decoded configuration.\<close>

lemma loadEndpoints_result:
  assumes "\<forall>n\<in>set ks. \<forall>e c. fmlookup eps n = Some e \<and> fetch get unmarshal e = Some c \<longrightarrow>
      (\<exists>c'. policy n c = Inr c')"
  shows "\<exists>configs. rangeMapP ks eps (loadEndpoint policy get unmarshal) acc = Inr configs \<and>
     (\<forall>n. fmlookup configs n =
        (case (if n \<in> set ks then fmlookup eps n else None) of
           None \<Rightarrow> fmlookup acc n
         | Some e \<Rightarrow>
             (case fetch get unmarshal e of
                None \<Rightarrow> fmlookup acc n
              | Some c \<Rightarrow> (case policy n c of Inl x \<Rightarrow> None | Inr c' \<Rightarrow> Some c'))))"
  using assms
proof (induction ks arbitrary: acc)
  case Nil
  show ?case by simp
next
  case (Cons a ks)
  from Cons.prems have ks: "\<forall>n\<in>set ks. \<forall>e c. fmlookup eps n = Some e \<and> fetch get unmarshal e = Some c \<longrightarrow>
      (\<exists>c'. policy n c = Inr c')" by (meson list.set_intros(2))
  show ?case
  proof (cases "fmlookup eps a")
    case None
    from Cons.IH [OF ks, of acc] obtain configs where
      l: "rangeMapP ks eps (loadEndpoint policy get unmarshal) acc = Inr configs" and
      c: "\<And>n. fmlookup configs n =
        (case (if n \<in> set ks then fmlookup eps n else None) of
           None \<Rightarrow> fmlookup acc n
         | Some e \<Rightarrow>
             (case fetch get unmarshal e of
                None \<Rightarrow> fmlookup acc n
              | Some c \<Rightarrow> (case policy n c of Inl x \<Rightarrow> None | Inr c' \<Rightarrow> Some c')))"
      by blast
    have "rangeMapP (a # ks) eps (loadEndpoint policy get unmarshal) acc = Inr configs"
      using None l by simp
    moreover have "\<forall>n. fmlookup configs n =
        (case (if n \<in> set (a # ks) then fmlookup eps n else None) of
           None \<Rightarrow> fmlookup acc n
         | Some e \<Rightarrow>
             (case fetch get unmarshal e of
                None \<Rightarrow> fmlookup acc n
              | Some c \<Rightarrow> (case policy n c of Inl x \<Rightarrow> None | Inr c' \<Rightarrow> Some c')))"
      unfolding c using None by auto
    ultimately show ?thesis by blast
  next
    case (Some e)
    show ?thesis
    proof (cases "fetch get unmarshal e")
      case None
      from Cons.IH [OF ks, of acc] obtain configs where
        l: "rangeMapP ks eps (loadEndpoint policy get unmarshal) acc = Inr configs" and
        c: "\<And>n. fmlookup configs n =
          (case (if n \<in> set ks then fmlookup eps n else None) of
             None \<Rightarrow> fmlookup acc n
           | Some e \<Rightarrow>
               (case fetch get unmarshal e of
                  None \<Rightarrow> fmlookup acc n
                | Some c \<Rightarrow> (case policy n c of Inl x \<Rightarrow> None | Inr c' \<Rightarrow> Some c')))"
        by blast
      have "rangeMapP (a # ks) eps (loadEndpoint policy get unmarshal) acc = Inr configs"
        using Some None l by (simp add: loadEndpoint_def)
      moreover have "\<forall>n. fmlookup configs n =
          (case (if n \<in> set (a # ks) then fmlookup eps n else None) of
             None \<Rightarrow> fmlookup acc n
           | Some e \<Rightarrow>
               (case fetch get unmarshal e of
                  None \<Rightarrow> fmlookup acc n
                | Some c \<Rightarrow> (case policy n c of Inl x \<Rightarrow> None | Inr c' \<Rightarrow> Some c')))"
        unfolding c using Some None by auto
      ultimately show ?thesis by blast
    next
      case (Some c0)
      with \<open>fmlookup eps a = Some e\<close> Cons.prems obtain c' where p: "policy a c0 = Inr c'"
        by auto
      from Cons.IH [OF ks, of "fmupd a c' acc"] obtain configs where
        l: "rangeMapP ks eps (loadEndpoint policy get unmarshal) (fmupd a c' acc) = Inr configs" and
        c: "\<And>n. fmlookup configs n =
          (case (if n \<in> set ks then fmlookup eps n else None) of
             None \<Rightarrow> fmlookup (fmupd a c' acc) n
           | Some e \<Rightarrow>
               (case fetch get unmarshal e of
                  None \<Rightarrow> fmlookup (fmupd a c' acc) n
                | Some c \<Rightarrow> (case policy n c of Inl x \<Rightarrow> None | Inr c' \<Rightarrow> Some c')))"
        by blast
      have "rangeMapP (a # ks) eps (loadEndpoint policy get unmarshal) acc = Inr configs"
        using \<open>fmlookup eps a = Some e\<close> Some p l by (simp add: loadEndpoint_def)
      moreover have "\<forall>n. fmlookup configs n =
          (case (if n \<in> set (a # ks) then fmlookup eps n else None) of
             None \<Rightarrow> fmlookup acc n
           | Some e \<Rightarrow>
               (case fetch get unmarshal e of
                  None \<Rightarrow> fmlookup acc n
                | Some c \<Rightarrow> (case policy n c of Inl x \<Rightarrow> None | Inr c' \<Rightarrow> Some c')))"
        unfolding c using \<open>fmlookup eps a = Some e\<close> Some p by (auto split: option.splits)
      ultimately show ?thesis by blast
    qed
  qed
qed

text \<open>
  When the policy panics on none of the decoded configurations, the tick is the merge of the
  transformed configurations of the endpoints whose fetch succeeded, and of these only.
\<close>

lemma tickWith_tolerates_failures:
  assumes "\<forall>n\<in>set (endpointOrder ord). \<forall>e c. fmlookup eps n = Some e \<and>
      fetch get unmarshal e = Some c \<longrightarrow> (\<exists>c'. policy n c = Inr c')"
  shows "\<exists>configs. tickWith policy eps get unmarshal ord
        = mergeConfig (mergeNodes ord) (mergeKeys ord) configs \<and>
     (\<forall>n. fmlookup configs n =
        (case (if n \<in> set (endpointOrder ord) then fmlookup eps n else None) of
           None \<Rightarrow> None
         | Some e \<Rightarrow>
             (case fetch get unmarshal e of
                None \<Rightarrow> None
              | Some c \<Rightarrow> (case policy n c of Inl x \<Rightarrow> None | Inr c' \<Rightarrow> Some c'))))"
proof -
  from loadEndpoints_result [OF assms, of fmempty] obtain configs where
    l: "rangeMapP (endpointOrder ord) eps (loadEndpoint policy get unmarshal) fmempty = Inr configs" and
    c: "\<forall>n. fmlookup configs n =
        (case (if n \<in> set (endpointOrder ord) then fmlookup eps n else None) of
           None \<Rightarrow> fmlookup fmempty n
         | Some e \<Rightarrow>
             (case fetch get unmarshal e of
                None \<Rightarrow> fmlookup fmempty n
              | Some c \<Rightarrow> (case policy n c of Inl x \<Rightarrow> None | Inr c' \<Rightarrow> Some c')))"
    by blast
  from l have "tickWith policy eps get unmarshal ord
        = mergeConfig (mergeNodes ord) (mergeKeys ord) configs"
    by (simp add: tickWith_def)
  with c show ?thesis unfolding fmempty_lookup by blast
qed

lemma rangeMapP_empty: "rangeMapP ks fmempty f s = Inr s"
  by (induction ks) simp_all

text \<open>With no successful fetch the tick sends the configuration with three empty maps.\<close>

lemma tickWith_no_success:
  assumes "\<forall>n e. fmlookup eps n = Some e \<longrightarrow> fetch get unmarshal e = None"
  shows "tickWith policy eps get unmarshal ord
       = Inr \<lparr>HTTP = Some \<lparr>Routers = fmempty, Services = fmempty, Middlewares = fmempty\<rparr>\<rparr>"
proof -
  have "\<forall>n\<in>set (endpointOrder ord). \<forall>e c. fmlookup eps n = Some e \<and>
      fetch get unmarshal e = Some c \<longrightarrow> (\<exists>c'. policy n c = Inr c')"
    using assms by fastforce
  from tickWith_tolerates_failures [OF this] obtain configs where
    t: "tickWith policy eps get unmarshal ord
        = mergeConfig (mergeNodes ord) (mergeKeys ord) configs" and
    c: "\<And>n. fmlookup configs n =
        (case (if n \<in> set (endpointOrder ord) then fmlookup eps n else None) of
           None \<Rightarrow> None
         | Some e \<Rightarrow>
             (case fetch get unmarshal e of
                None \<Rightarrow> None
              | Some c \<Rightarrow> (case policy n c of Inl x \<Rightarrow> None | Inr c' \<Rightarrow> Some c')))"
    by blast
  have "configs = fmempty"
  proof (rule fmap_ext)
    fix n
    show "fmlookup configs n = fmlookup fmempty n"
      unfolding c using assms by (auto split: option.splits)
  qed
  with t show ?thesis by (simp add: mergeConfig_def rangeMapP_empty)
qed


lemma tick_tolerates_failures:
  fixes unmarshal :: "string \<Rightarrow> ('s, 'm) Configuration option"
  assumes "\<forall>n\<in>set (endpointOrder ord). \<forall>e c. fmlookup (endpoints p) n = Some e \<and>
      fetch get unmarshal e = Some c \<longrightarrow>
      (\<exists>h. c = \<lparr>HTTP = Some h\<rparr> \<and> noNilRouter h \<and>
           fitsFilter (entrypoints p) (policyOrder ord n) h)"
  shows "\<exists>configs. tick p get unmarshal ord
        = mergeConfig (mergeNodes ord) (mergeKeys ord) configs \<and>
     (\<forall>n. fmlookup configs n =
        (case (if n \<in> set (endpointOrder ord) then fmlookup (endpoints p) n else None) of
           None \<Rightarrow> None
         | Some e \<Rightarrow>
             (case fetch get unmarshal e of
                None \<Rightarrow> None
              | Some c \<Rightarrow>
                  (case filterEntryPoints (entrypoints p) (policyOrder ord n) c of
                     Inl x \<Rightarrow> None | Inr c' \<Rightarrow> Some c'))))"
  unfolding tick_def
proof (rule tickWith_tolerates_failures, intro ballI allI impI, elim conjE)
  fix n e and c :: "('s, 'm) Configuration"
  assume "n \<in> set (endpointOrder ord)" "fmlookup (endpoints p) n = Some e"
    "fetch get unmarshal e = Some c"
  with assms obtain h where h: "c = \<lparr>HTTP = Some h\<rparr>" "noNilRouter h"
    "fitsFilter (entrypoints p) (policyOrder ord n) h" by blast
  from filterEntryPoints_result [OF h(2,3)] h(1)
  show "\<exists>c'. filterEntryPoints (entrypoints p) (policyOrder ord n) c = Inr c'" by blast
qed

lemma tick_B_tolerates_failures:
  fixes unmarshal :: "string \<Rightarrow> ('s, 'm) Configuration option"
  assumes "\<forall>n\<in>set (endpointOrder ord). \<forall>e c. fmlookup (endpoints p) n = Some e \<and>
      fetch get unmarshal e = Some c \<longrightarrow>
      (\<exists>h. c = \<lparr>HTTP = Some h\<rparr> \<and> noNilRouter h \<and> visits (policyOrder ord n) (Routers h))"
  shows "\<exists>configs. tick_B p get unmarshal ord
        = mergeConfig (mergeNodes ord) (mergeKeys ord) configs \<and>
     (\<forall>n. fmlookup configs n =
        (case (if n \<in> set (endpointOrder ord) then fmlookup (endpoints p) n else None) of
           None \<Rightarrow> None
         | Some e \<Rightarrow>
             (case fetch get unmarshal e of
                None \<Rightarrow> None
              | Some c \<Rightarrow>
                  (case rewriteMiddlewares (policyOrder ord n) c of
                     Inl x \<Rightarrow> None | Inr c' \<Rightarrow> Some c'))))"
  unfolding tick_B_def
proof (rule tickWith_tolerates_failures, intro ballI allI impI, elim conjE)
  fix n e and c :: "('s, 'm) Configuration"
  assume "n \<in> set (endpointOrder ord)" "fmlookup (endpoints p) n = Some e"
    "fetch get unmarshal e = Some c"
  with assms obtain h where h: "c = \<lparr>HTTP = Some h\<rparr>" "noNilRouter h"
    "visits (policyOrder ord n) (Routers h)" by blast
  from rewriteMiddlewares_result [OF h(3,2)] h(1)
  show "\<exists>c'. rewriteMiddlewares (policyOrder ord n) c = Inr c'" by blast
qed

lemma recognized_dom: "recognized eps r = filter (\<lambda>e. e \<in> fmdom' eps) (EntryPoints r)"
  by (simp add: recognized_def fmlookup_dom'_iff)

lemmas tick_eval = tick_def tick_B_def tickWith_def loadEndpoint_def fetch_def
  filterEntryPoints_def rewriteMiddlewares_def rewriteRouter_def rewriteRefs_def
  markRouter_Some recognized_dom markSeen_def markKept_def
  deleteMarked_def deleteMiddlewares_def mergeConfig_def mergeOne_def addNew_def
  exampleProvider_def exampleUnmarshal_def exampleGet_def exampleTickOrder_def
  exampleTickOrder_B_def fragmentA_def fragmentB_def


text \<open>One endpoint answers with fragment \<open>A\<close>, the other cannot be reached: the tick sends \<open>A\<close>.\<close>

lemma tick_one_failure:
  "\<exists>h. tick exampleProvider
      (exampleGet (Some \<lparr>StatusCode = 200, Body = Some ''A''\<rparr>) None)
      exampleUnmarshal (exampleTickOrder [''server2'', ''server1'']) = Inr \<lparr>HTTP = Some h\<rparr> \<and>
    fmlookup (Routers h) ''ra'' = Some (Some \<lparr>EntryPoints = [''web''], Middlewares = [''auth''],
                                    Service = ''svc1'', Rule = ''Host(`a`)''\<rparr>) \<and>
    fmlookup (Services h) ''svc1'' = Some ''http://10.0.0.1''"
  by (simp add: tick_eval)


text \<open>
  C5. Two endpoints; the first answers with fragment \<open>A\<close>, the second with the document
  \<open>{}\<close>, which decodes with no error to a configuration whose \<^verbatim>\<open>HTTP\<close> is nil. The
  dereference \<^verbatim>\<open>config.HTTP.Routers\<close> panics, in both files and whichever endpoint is visited
  first: the tick sends nothing. (The lemmas above show that a tick in which every decoded
  configuration has an \<^verbatim>\<open>http\<close> section and no nil router does send the merge of the
  transformed fragments of the endpoints that answered, and the empty configuration when
  none did.)
\<close>

theorem tick_panics_without_http:
  "tick exampleProvider
      (exampleGet (Some \<lparr>StatusCode = 200, Body = Some ''A''\<rparr>)
                  (Some \<lparr>StatusCode = 200, Body = Some ''{}''\<rparr>))
      exampleUnmarshal (exampleTickOrder [''server1'', ''server2'']) = Inl NilDereference \<and>
   tick exampleProvider
      (exampleGet (Some \<lparr>StatusCode = 200, Body = Some ''A''\<rparr>)
                  (Some \<lparr>StatusCode = 200, Body = Some ''{}''\<rparr>))
      exampleUnmarshal (exampleTickOrder [''server2'', ''server1'']) = Inl NilDereference \<and>
   tick_B exampleProvider
      (exampleGet (Some \<lparr>StatusCode = 200, Body = Some ''A''\<rparr>)
                  (Some \<lparr>StatusCode = 200, Body = Some ''{}''\<rparr>))
      exampleUnmarshal (exampleTickOrder_B [''server1'', ''server2'']) = Inl NilDereference"
  by (simp add: tick_eval)


lemma fetch_Some_iff:
  "fetch get unmarshal e = Some c \<longleftrightarrow>
     (\<exists>resp body. get (''http://'' @ endpoint e @ '':5000/traefik/config'') = Some resp \<and>
        Body resp = Some body \<and> unmarshal body = Some c)"
  unfolding fetch_body by (auto split: option.splits)


lemma fragmentA_noNil: "noNilRouter fragmentA"
  by (simp add: noNilRouter_def fragmentA_def)

lemma fragmentA_fits:
  "fitsFilter (fmupd ''web'' True fmempty)
     \<lparr>routerOrder = [''ra''], deleteOrder = [], middlewareOrder = [''auth'']\<rparr> fragmentA"
  by (auto simp add: fitsFilter_def fragmentA_def markRouter_Some recognized_def
      markSeen_def markKept_def visits_def)

lemma example_endpoints:
  "fmlookup (endpoints exampleProvider) n = Some e \<longleftrightarrow>
     n = ''server1'' \<and> e = \<lparr>endpoint = ''10.0.1.2'', headers = fmempty\<rparr> \<or>
     n = ''server2'' \<and> e = \<lparr>endpoint = ''192.168.0.3'', headers = fmempty\<rparr>"
  by (auto simp add: exampleProvider_def)

lemma example_decoded:
  assumes "fmlookup (endpoints exampleProvider) n = Some e"
    and "exampleGet (Some \<lparr>StatusCode = 500, Body = Some ''A''\<rparr>) None
           (''http://'' @ endpoint e @ '':5000/traefik/config'') = Some resp"
    and "Body resp = Some body" and "exampleUnmarshal body = Some c"
  shows "n = ''server1'' \<and> c = \<lparr>HTTP = Some fragmentA\<rparr>"
  using assms unfolding example_endpoints
  by (auto simp add: exampleGet_def exampleUnmarshal_def split: if_splits)

text \<open>
  C6. The status code of a response is not read. Take a tick in which every decoded
  configuration has an \<^verbatim>\<open>http\<close> section and no nil router, and a second world whose responses
  differ from the first in nothing but status codes. In both files, the tick hands the same
  map of configurations to \<^verbatim>\<open>mergeConfig\<close> in both worlds; an endpoint has an entry in that
  map exactly when its request returned a response, of whatever status code, whose body could
  be read and decoded; and the entry is the transformed configuration of that body.
\<close>

theorem tick_ignores_status:
  fixes unmarshal :: "string \<Rightarrow> ('s, 'm) Configuration option"
  assumes st: "\<forall>u. map_option Body (get u) = map_option Body (get' u)"
    and va: "visits (endpointOrder ord) (endpoints p)"
    and wa: "\<forall>n e resp body c. fmlookup (endpoints p) n = Some e \<and>
        get (''http://'' @ endpoint e @ '':5000/traefik/config'') = Some resp \<and>
        Body resp = Some body \<and> unmarshal body = Some c \<longrightarrow>
        (\<exists>h. c = \<lparr>HTTP = Some h\<rparr> \<and> noNilRouter h \<and>
             fitsFilter (entrypoints p) (policyOrder ord n) h)"
    and vb: "visits (endpointOrder ord') (endpoints q)"
    and wb: "\<forall>n e resp body c. fmlookup (endpoints q) n = Some e \<and>
        get (''http://'' @ endpoint e @ '':5000/traefik/config'') = Some resp \<and>
        Body resp = Some body \<and> unmarshal body = Some c \<longrightarrow>
        (\<exists>h. c = \<lparr>HTTP = Some h\<rparr> \<and> noNilRouter h \<and> visits (policyOrder ord' n) (Routers h))"
  shows "(\<exists>configs.
            tick p get unmarshal ord = mergeConfig (mergeNodes ord) (mergeKeys ord) configs \<and>
            tick p get' unmarshal ord = mergeConfig (mergeNodes ord) (mergeKeys ord) configs \<and>
            (\<forall>n. fmlookup configs n \<noteq> None \<longleftrightarrow>
               (\<exists>e resp body c. fmlookup (endpoints p) n = Some e \<and>
                  get (''http://'' @ endpoint e @ '':5000/traefik/config'') = Some resp \<and>
                  Body resp = Some body \<and> unmarshal body = Some c)) \<and>
            (\<forall>n e resp body c. fmlookup (endpoints p) n = Some e \<and>
                  get (''http://'' @ endpoint e @ '':5000/traefik/config'') = Some resp \<and>
                  Body resp = Some body \<and> unmarshal body = Some c \<longrightarrow>
               (\<exists>c'. filterEntryPoints (entrypoints p) (policyOrder ord n) c = Inr c' \<and>
                     fmlookup configs n = Some c'))) \<and>
         (\<exists>configs.
            tick_B q get unmarshal ord' = mergeConfig (mergeNodes ord') (mergeKeys ord') configs \<and>
            tick_B q get' unmarshal ord' = mergeConfig (mergeNodes ord') (mergeKeys ord') configs \<and>
            (\<forall>n. fmlookup configs n \<noteq> None \<longleftrightarrow>
               (\<exists>e resp body c. fmlookup (endpoints q) n = Some e \<and>
                  get (''http://'' @ endpoint e @ '':5000/traefik/config'') = Some resp \<and>
                  Body resp = Some body \<and> unmarshal body = Some c)) \<and>
            (\<forall>n e resp body c. fmlookup (endpoints q) n = Some e \<and>
                  get (''http://'' @ endpoint e @ '':5000/traefik/config'') = Some resp \<and>
                  Body resp = Some body \<and> unmarshal body = Some c \<longrightarrow>
               (\<exists>c'. rewriteMiddlewares (policyOrder ord' n) c = Inr c' \<and>
                     fmlookup configs n = Some c')))"
proof -
  have main: "\<exists>configs.
        tickWith policy eps get unmarshal o' = mergeConfig (mergeNodes o') (mergeKeys o') configs \<and>
        tickWith policy eps get' unmarshal o' = mergeConfig (mergeNodes o') (mergeKeys o') configs \<and>
        (\<forall>n. fmlookup configs n \<noteq> None \<longleftrightarrow>
           (\<exists>e resp body c. fmlookup eps n = Some e \<and>
              get (''http://'' @ endpoint e @ '':5000/traefik/config'') = Some resp \<and>
              Body resp = Some body \<and> unmarshal body = Some c)) \<and>
        (\<forall>n e resp body c. fmlookup eps n = Some e \<and>
              get (''http://'' @ endpoint e @ '':5000/traefik/config'') = Some resp \<and>
              Body resp = Some body \<and> unmarshal body = Some c \<longrightarrow>
           (\<exists>c'. policy n c = Inr c' \<and> fmlookup configs n = Some c'))"
    if v: "visits (endpointOrder o') eps"
      and w: "\<forall>n e c. fmlookup eps n = Some e \<and> fetch get unmarshal e = Some c \<longrightarrow>
          (\<exists>c'. policy n c = Inr c')"
    for policy :: "string \<Rightarrow> ('s, 'm) Configuration \<Rightarrow> panic + ('s, 'm) Configuration"
      and eps and o' :: "('o, 'z) tickOrder_scheme"
  proof -
    from w have "\<forall>n\<in>set (endpointOrder o'). \<forall>e c. fmlookup eps n = Some e \<and>
        fetch get unmarshal e = Some c \<longrightarrow> (\<exists>c'. policy n c = Inr c')" by blast
    from tickWith_tolerates_failures [OF this] obtain configs where
      t: "tickWith policy eps get unmarshal o' = mergeConfig (mergeNodes o') (mergeKeys o') configs" and
      c: "\<And>n. fmlookup configs n =
        (case (if n \<in> set (endpointOrder o') then fmlookup eps n else None) of
           None \<Rightarrow> None
         | Some e \<Rightarrow>
             (case fetch get unmarshal e of
                None \<Rightarrow> None
              | Some c \<Rightarrow> (case policy n c of Inl x \<Rightarrow> None | Inr c' \<Rightarrow> Some c')))"
      by blast
    have c': "fmlookup configs n =
        (case fmlookup eps n of
           None \<Rightarrow> None
         | Some e \<Rightarrow>
             (case fetch get unmarshal e of
                None \<Rightarrow> None
              | Some c \<Rightarrow> (case policy n c of Inl x \<Rightarrow> None | Inr c' \<Rightarrow> Some c')))" for n
      unfolding c using visits_mem [OF v, of n] by (cases "fmlookup eps n") simp_all
    have t': "tickWith policy eps get' unmarshal o' = mergeConfig (mergeNodes o') (mergeKeys o') configs"
      using t tickWith_status_independent [OF st, of policy eps unmarshal o'] by simp
    have good: "\<exists>c'. policy n c = Inr c' \<and> fmlookup configs n = Some c'"
      if "fmlookup eps n = Some e" "fetch get unmarshal e = Some c" for n e c
    proof -
      from w that obtain c' where "policy n c = Inr c'" by blast
      with that show ?thesis unfolding c' by simp
    qed
    have iff: "fmlookup configs n \<noteq> None \<longleftrightarrow>
        (\<exists>e c. fmlookup eps n = Some e \<and> fetch get unmarshal e = Some c)" for n
    proof
      assume "fmlookup configs n \<noteq> None"
      then show "\<exists>e c. fmlookup eps n = Some e \<and> fetch get unmarshal e = Some c"
        unfolding c' by (auto split: option.splits)
    next
      assume "\<exists>e c. fmlookup eps n = Some e \<and> fetch get unmarshal e = Some c"
      then obtain e c where "fmlookup eps n = Some e" "fetch get unmarshal e = Some c" by blast
      from good [OF this] show "fmlookup configs n \<noteq> None" by auto
    qed
    have 1: "\<forall>n. fmlookup configs n \<noteq> None \<longleftrightarrow>
           (\<exists>e resp body c. fmlookup eps n = Some e \<and>
              get (''http://'' @ endpoint e @ '':5000/traefik/config'') = Some resp \<and>
              Body resp = Some body \<and> unmarshal body = Some c)"
      unfolding iff fetch_Some_iff by blast
    have 2: "\<forall>n e resp body c. fmlookup eps n = Some e \<and>
              get (''http://'' @ endpoint e @ '':5000/traefik/config'') = Some resp \<and>
              Body resp = Some body \<and> unmarshal body = Some c \<longrightarrow>
           (\<exists>c'. policy n c = Inr c' \<and> fmlookup configs n = Some c')"
    proof (intro allI impI, elim conjE)
      fix n e resp body c
      assume a: "fmlookup eps n = Some e"
        "get (''http://'' @ endpoint e @ '':5000/traefik/config'') = Some resp"
        "Body resp = Some body" "unmarshal body = Some c"
      then have "fetch get unmarshal e = Some c" unfolding fetch_Some_iff by blast
      with a(1) show "\<exists>c'. policy n c = Inr c' \<and> fmlookup configs n = Some c'" by (rule good)
    qed
    from t t' 1 2 show ?thesis by blast
  qed
  have pa: "\<forall>n e c. fmlookup (endpoints p) n = Some e \<and> fetch get unmarshal e = Some c \<longrightarrow>
      (\<exists>c'. filterEntryPoints (entrypoints p) (policyOrder ord n) c = Inr c')"
  proof (intro allI impI, elim conjE)
    fix n e and c :: "('s, 'm) Configuration"
    assume a: "fmlookup (endpoints p) n = Some e" "fetch get unmarshal e = Some c"
    from a(2) obtain resp body where
      "get (''http://'' @ endpoint e @ '':5000/traefik/config'') = Some resp"
      "Body resp = Some body" "unmarshal body = Some c"
      unfolding fetch_Some_iff by blast
    with wa a(1) obtain h where h: "c = \<lparr>HTTP = Some h\<rparr>" "noNilRouter h"
      "fitsFilter (entrypoints p) (policyOrder ord n) h" by blast
    from filterEntryPoints_result [OF h(2,3)] h(1)
    show "\<exists>c'. filterEntryPoints (entrypoints p) (policyOrder ord n) c = Inr c'" by blast
  qed
  have pb: "\<forall>n e c. fmlookup (endpoints q) n = Some e \<and> fetch get unmarshal e = Some c \<longrightarrow>
      (\<exists>c'. rewriteMiddlewares (policyOrder ord' n) c = Inr c')"
  proof (intro allI impI, elim conjE)
    fix n e and c :: "('s, 'm) Configuration"
    assume a: "fmlookup (endpoints q) n = Some e" "fetch get unmarshal e = Some c"
    from a(2) obtain resp body where
      "get (''http://'' @ endpoint e @ '':5000/traefik/config'') = Some resp"
      "Body resp = Some body" "unmarshal body = Some c"
      unfolding fetch_Some_iff by blast
    with wb a(1) obtain h where h: "c = \<lparr>HTTP = Some h\<rparr>" "noNilRouter h"
      "visits (policyOrder ord' n) (Routers h)" by blast
    from rewriteMiddlewares_result [OF h(3,2)] h(1)
    show "\<exists>c'. rewriteMiddlewares (policyOrder ord' n) c = Inr c'" by blast
  qed
  from main [OF va pa] main [OF vb pb] show ?thesis
    unfolding tick_def tick_B_def by blast
qed

theorem tick_ignores_status_witness:
  "(\<exists>configs.
      tick exampleProvider (exampleGet (Some \<lparr>StatusCode = 500, Body = Some ''A''\<rparr>) None)
        exampleUnmarshal (exampleTickOrder [''server1'', ''server2''])
      = mergeConfig [''server1'']
          (mergeKeys (exampleTickOrder [''server1'', ''server2''])) configs \<and>
      tick exampleProvider (exampleGet (Some \<lparr>StatusCode = 200, Body = Some ''A''\<rparr>) None)
        exampleUnmarshal (exampleTickOrder [''server1'', ''server2''])
      = mergeConfig [''server1'']
          (mergeKeys (exampleTickOrder [''server1'', ''server2''])) configs \<and>
      fmlookup configs ''server1'' \<noteq> None \<and> fmlookup configs ''server2'' = None) \<and>
   (\<exists>configs.
      tick_B exampleProvider (exampleGet (Some \<lparr>StatusCode = 500, Body = Some ''A''\<rparr>) None)
        exampleUnmarshal (exampleTickOrder_B [''server1'', ''server2''])
      = mergeConfig [''server1'']
          (mergeKeys (exampleTickOrder_B [''server1'', ''server2''])) configs \<and>
      tick_B exampleProvider (exampleGet (Some \<lparr>StatusCode = 200, Body = Some ''A''\<rparr>) None)
        exampleUnmarshal (exampleTickOrder_B [''server1'', ''server2''])
      = mergeConfig [''server1'']
          (mergeKeys (exampleTickOrder_B [''server1'', ''server2''])) configs \<and>
      fmlookup configs ''server1'' \<noteq> None \<and> fmlookup configs ''server2'' = None)"
proof -
  let ?g = "exampleGet (Some \<lparr>StatusCode = 500, Body = Some ''A''\<rparr>) None"
  let ?g' = "exampleGet (Some \<lparr>StatusCode = 200, Body = Some ''A''\<rparr>) None"
  let ?oa = "exampleTickOrder [''server1'', ''server2'']"
  let ?ob = "exampleTickOrder_B [''server1'', ''server2'']"
  have st: "\<forall>u. map_option Body (?g u) = map_option Body (?g' u)"
    by (simp add: exampleGet_def)
  have va: "visits (endpointOrder ?oa) (endpoints exampleProvider)"
    by (auto simp add: visits_def exampleTickOrder_def exampleProvider_def)
  have vb: "visits (endpointOrder ?ob) (endpoints exampleProvider)"
    by (auto simp add: visits_def exampleTickOrder_B_def exampleProvider_def)
  have wa: "\<forall>n e resp body c. fmlookup (endpoints exampleProvider) n = Some e \<and>
        ?g (''http://'' @ endpoint e @ '':5000/traefik/config'') = Some resp \<and>
        Body resp = Some body \<and> exampleUnmarshal body = Some c \<longrightarrow>
        (\<exists>h. c = \<lparr>HTTP = Some h\<rparr> \<and> noNilRouter h \<and>
             fitsFilter (entrypoints exampleProvider) (policyOrder ?oa n) h)"
  proof (intro allI impI, elim conjE)
    fix n e resp body and c :: "(string, string) Configuration"
    assume "fmlookup (endpoints exampleProvider) n = Some e"
      "?g (''http://'' @ endpoint e @ '':5000/traefik/config'') = Some resp"
      "Body resp = Some body" "exampleUnmarshal body = Some c"
    then have "n = ''server1'' \<and> c = \<lparr>HTTP = Some fragmentA\<rparr>" by (rule example_decoded)
    then show "\<exists>h. c = \<lparr>HTTP = Some h\<rparr> \<and> noNilRouter h \<and>
             fitsFilter (entrypoints exampleProvider) (policyOrder ?oa n) h"
      using fragmentA_noNil fragmentA_fits
      by (simp add: exampleTickOrder_def exampleProvider_def)
  qed
  have wb: "\<forall>n e resp body c. fmlookup (endpoints exampleProvider) n = Some e \<and>
        ?g (''http://'' @ endpoint e @ '':5000/traefik/config'') = Some resp \<and>
        Body resp = Some body \<and> exampleUnmarshal body = Some c \<longrightarrow>
        (\<exists>h. c = \<lparr>HTTP = Some h\<rparr> \<and> noNilRouter h \<and> visits (policyOrder ?ob n) (Routers h))"
  proof (intro allI impI, elim conjE)
    fix n e resp body and c :: "(string, string) Configuration"
    assume "fmlookup (endpoints exampleProvider) n = Some e"
      "?g (''http://'' @ endpoint e @ '':5000/traefik/config'') = Some resp"
      "Body resp = Some body" "exampleUnmarshal body = Some c"
    then have "n = ''server1'' \<and> c = \<lparr>HTTP = Some fragmentA\<rparr>" by (rule example_decoded)
    then show "\<exists>h. c = \<lparr>HTTP = Some h\<rparr> \<and> noNilRouter h \<and> visits (policyOrder ?ob n) (Routers h)"
      using fragmentA_noNil
      by (simp add: exampleTickOrder_B_def visits_def fragmentA_def)
  qed
  have s1: "\<exists>e resp body c. fmlookup (endpoints exampleProvider) ''server1'' = Some e \<and>
        ?g (''http://'' @ endpoint e @ '':5000/traefik/config'') = Some resp \<and>
        Body resp = Some body \<and> exampleUnmarshal body = Some c"
    by (simp add: exampleProvider_def exampleGet_def exampleUnmarshal_def)
  have s2: "\<not> (\<exists>e resp body c. fmlookup (endpoints exampleProvider) ''server2'' = Some e \<and>
        ?g (''http://'' @ endpoint e @ '':5000/traefik/config'') = Some resp \<and>
        Body resp = Some body \<and> exampleUnmarshal body = Some c)"
    by (simp add: exampleProvider_def exampleGet_def)
  have ma: "mergeNodes ?oa = [''server1'']" by (simp add: exampleTickOrder_def)
  have mb: "mergeNodes ?ob = [''server1'']" by (simp add: exampleTickOrder_B_def)
  note inst = tick_ignores_status [OF st va wa vb wb]
  from inst [THEN conjunct1] obtain ca where
    a1: "tick exampleProvider ?g exampleUnmarshal ?oa = mergeConfig (mergeNodes ?oa) (mergeKeys ?oa) ca" and
    a2: "tick exampleProvider ?g' exampleUnmarshal ?oa = mergeConfig (mergeNodes ?oa) (mergeKeys ?oa) ca" and
    a3: "\<forall>n. fmlookup ca n \<noteq> None \<longleftrightarrow>
           (\<exists>e resp body c. fmlookup (endpoints exampleProvider) n = Some e \<and>
              ?g (''http://'' @ endpoint e @ '':5000/traefik/config'') = Some resp \<and>
              Body resp = Some body \<and> exampleUnmarshal body = Some c)"
    by blast
  from inst [THEN conjunct2] obtain cb where
    b1: "tick_B exampleProvider ?g exampleUnmarshal ?ob = mergeConfig (mergeNodes ?ob) (mergeKeys ?ob) cb" and
    b2: "tick_B exampleProvider ?g' exampleUnmarshal ?ob = mergeConfig (mergeNodes ?ob) (mergeKeys ?ob) cb" and
    b3: "\<forall>n. fmlookup cb n \<noteq> None \<longleftrightarrow>
           (\<exists>e resp body c. fmlookup (endpoints exampleProvider) n = Some e \<and>
              ?g (''http://'' @ endpoint e @ '':5000/traefik/config'') = Some resp \<and>
              Body resp = Some body \<and> exampleUnmarshal body = Some c)"
    by blast
  from a3 [THEN spec, of "''server1''"] s1 have a4: "fmlookup ca ''server1'' \<noteq> None" by (rule iffD2)
  from a3 [THEN spec, of "''server2''"] s2 have a5: "fmlookup ca ''server2'' = None" by blast
  from b3 [THEN spec, of "''server1''"] s1 have b4: "fmlookup cb ''server1'' \<noteq> None" by (rule iffD2)
  from b3 [THEN spec, of "''server2''"] s2 have b5: "fmlookup cb ''server2'' = None" by blast
  have A: "\<exists>configs.
      tick exampleProvider ?g exampleUnmarshal ?oa
      = mergeConfig [''server1''] (mergeKeys ?oa) configs \<and>
      tick exampleProvider ?g' exampleUnmarshal ?oa
      = mergeConfig [''server1''] (mergeKeys ?oa) configs \<and>
      fmlookup configs ''server1'' \<noteq> None \<and> fmlookup configs ''server2'' = None"
    using a1 a2 a4 a5 unfolding ma by (intro exI [of _ ca]) simp
  have B: "\<exists>configs.
      tick_B exampleProvider ?g exampleUnmarshal ?ob
      = mergeConfig [''server1''] (mergeKeys ?ob) configs \<and>
      tick_B exampleProvider ?g' exampleUnmarshal ?ob
      = mergeConfig [''server1''] (mergeKeys ?ob) configs \<and>
      fmlookup configs ''server1'' \<noteq> None \<and> fmlookup configs ''server2'' = None"
    using b1 b2 b4 b5 unfolding mb by (intro exI [of _ cb]) simp
  from A B show ?thesis by (rule conjI)
qed

text \<open>
  The first endpoint answers with status 500 and a body that holds fragment \<open>A\<close>, the
  second cannot be reached: the configuration sent is fragment \<open>A\<close>, filtered.
\<close>

theorem tick_status_500_counterexample:
  "tick exampleProvider
      (exampleGet (Some \<lparr>StatusCode = 500, Body = Some ''A''\<rparr>) None)
      exampleUnmarshal (exampleTickOrder [''server1'', ''server2''])
   = Inr \<lparr>HTTP = Some
       \<lparr>Routers = fmupd ''ra'' (Some \<lparr>EntryPoints = [''web''], Middlewares = [''auth''],
                                      Service = ''svc1'', Rule = ''Host(`a`)''\<rparr>) fmempty,
        Services = fmupd ''svc1'' ''http://10.0.0.1'' fmempty,
        Middlewares = fmupd ''auth'' ''basic-a'' fmempty\<rparr>\<rparr>"
  by (simp add: tick_eval)

end
